theory Spec2Isabelle
  imports Complex_Main "HOL-Library.AList"
begin

section \<open>Strings and numbers of the host language\<close>

text \<open>
  A JavaScript string is a sequence of UTF-16 code units; \<open>length\<close>, \<open>split\<close>,
  \<open>slice\<close>, \<open>startsWith\<close> and the regular expression \<open>.\<close> all count code units.
  A code unit is modelled as a natural number below \<open>65536\<close>. ASCII literals of the
  source are written \<open>js ''...''\<close>; a character outside ASCII is written by its code
  point with \<open>cp\<close>, which yields the surrogate pair for a code point above \<open>0xFFFF\<close>.
\<close>

type_synonym jsstring = "nat list"

definition js :: "string \<Rightarrow> jsstring" where
  "js s = map of_char s"

definition cp :: "nat \<Rightarrow> jsstring" where
  "cp c = (if c < 0x10000 then [c]
           else [0xD800 + (c - 0x10000) div 0x400, 0xDC00 + (c - 0x10000) mod 0x400])"

text \<open>\<open>String.prototype.split\<close> with a one-character separator.\<close>

fun split_on :: "nat \<Rightarrow> jsstring \<Rightarrow> jsstring list" where
  "split_on sep [] = [[]]"
| "split_on sep (c # cs) =
     (if c = sep then [] # split_on sep cs
      else (case split_on sep cs of
              [] \<Rightarrow> [[c]]
            | p # ps \<Rightarrow> (c # p) # ps))"

text \<open>\<open>Number.prototype.toString\<close> on a non-negative integer: its decimal digits.\<close>

fun show_nat :: "nat \<Rightarrow> jsstring" where
  "show_nat n = (if n < 10 then [48 + n] else show_nat (n div 10) @ [48 + n mod 10])"

declare show_nat.simps [simp del]

definition show_int :: "int \<Rightarrow> jsstring" where
  "show_int i = (if i < 0 then js ''-'' @ show_nat (nat (- i)) else show_nat (nat i))"

section \<open>Upload rate limiter\<close>

text \<open>
  \<open>uploadLimiter\<close> maps a device id to its window record. \<open>Date.now()\<close> is an input
  of the model: the number of milliseconds the clock shows at the call.
\<close>

record device_limits =
  count :: int
  window :: int

type_synonym upload_limiter = "jsstring \<rightharpoonup> device_limits"

definition UPLOAD_LIMIT :: int where
  "UPLOAD_LIMIT = 10"

definition UPLOAD_WINDOW :: int where
  "UPLOAD_WINDOW = 60000"

definition checkUploadRate :: "int \<Rightarrow> jsstring \<Rightarrow> upload_limiter \<Rightarrow> bool \<times> upload_limiter" where
  "checkUploadRate now deviceId uploadLimiter =
     (let deviceLimits0 = (case uploadLimiter deviceId of
                             Some d \<Rightarrow> d
                           | None \<Rightarrow> \<lparr>count = 0, window = now\<rparr>);
          deviceLimits1 = (if now - window deviceLimits0 > UPLOAD_WINDOW
                           then deviceLimits0\<lparr>count := 0, window := now\<rparr>
                           else deviceLimits0);
          deviceLimits2 = deviceLimits1\<lparr>count := count deviceLimits1 + 1\<rparr>
      in (count deviceLimits2 \<le> UPLOAD_LIMIT, uploadLimiter(deviceId \<mapsto> deviceLimits2)))"

text \<open>
  A run of calls for one device, at the clock readings given in order; the verdicts are
  returned in the order of the calls.
\<close>

fun upload_calls :: "jsstring \<Rightarrow> int list \<Rightarrow> upload_limiter \<Rightarrow> bool list \<times> upload_limiter" where
  "upload_calls deviceId [] uploadLimiter = ([], uploadLimiter)"
| "upload_calls deviceId (now # later) uploadLimiter =
     (let (ok, uploadLimiter') = checkUploadRate now deviceId uploadLimiter;
          (oks, uploadLimiter'') = upload_calls deviceId later uploadLimiter'
      in (ok # oks, uploadLimiter''))"

section \<open>The x-auth header\<close>

record device_info =
  key :: jsstring
  deviceId :: jsstring

text \<open>
  \<open>req.headers["x-auth"]\<close> is \<open>undefined\<close> (here \<open>None\<close>) or a string. The empty
  string is falsy, so \<open>!authHeader\<close> also rejects it.
\<close>

definition getDeviceInfo :: "jsstring option \<Rightarrow> device_info option" where
  "getDeviceInfo authHeader =
     (case authHeader of
        None \<Rightarrow> None
      | Some h \<Rightarrow>
          if h = [] then None
          else (let parts = split_on 58 h
                in if length parts \<ge> 2
                   then Some \<lparr>key = parts ! 0, deviceId = parts ! 1\<rparr>
                   else None))"

section \<open>HTTP ingestion endpoints: the shared guard\<close>

text \<open>
  Every \<open>app.post\<close> route except the webhook starts with the same two statements:
  \<^verbatim>\<open>const deviceInfo = getDeviceInfo(req.headers["x-auth"]);\<close> and
  \<^verbatim>\<open>if (!deviceInfo) return res.sendStatus(403);\<close>. The routes are enumerated as
  \<open>route\<close>; what a route does once the header has parsed is its \<open>body\<close>.
  An outcome holds the HTTP reply, the calls made to the bot gateway, in order, and
  the state of the process-wide maps afterwards (the request and error counters of the
  performance statistics are not part of it).
\<close>

datatype route =
    Capture | Video | JsonLocation | TextContacts | TextSms | File | JsonFilelist
  | JsonStorageInfo | JsonGallerycount | GalleryPhoto | JsonGalleryStatus | JsonFileStatus
  | JsonStatus | JsonError | JsonPermissions | JsonPermissionRequest | JsonDeviceStatus
  | JsonStealthMonitor | JsonBatteryStatus | JsonNetworkInfo | JsonDeviceInfo | JsonAppList
  | JsonEnhancedPerfection

datatype reply =
    SendStatus nat
  | JsonOk
  | JsonOkWarning jsstring
  | JsonFailure nat jsstring
  | NoReply

record ('a, 's) outcome =
  reply :: reply
  sends :: "'a list"
  state :: 's

definition handle_post ::
  "route \<Rightarrow> jsstring option \<Rightarrow> (route \<Rightarrow> device_info \<Rightarrow> 's \<Rightarrow> ('a, 's) outcome) \<Rightarrow> 's
     \<Rightarrow> ('a, 's) outcome" where
  "handle_post r authHeader body st =
     (case getDeviceInfo authHeader of
        None \<Rightarrow> \<lparr>reply = SendStatus 403, sends = [], state = st\<rparr>
      | Some deviceInfo \<Rightarrow> body r deviceInfo st)"

text \<open>
  Before a route's callback runs, the request passes the body parsers: the two
  registered for every request (\<open>express.json\<close> and \<open>express.text\<close>, both with a
  limit of 10mb) and the route's own (\<open>express.json()\<close>, \<open>express.text()\<close> or
  \<open>upload.single\<close>). A parser that rejects the request (a body that is not valid
  JSON under a JSON content type, a body over the limit, a file in an unexpected field)
  passes an error on, the callback is skipped, and the error handler replies 500 with
  \<open>{error: "Internal server error"}\<close>. Whether the parsers accept depends on the
  body and its content headers only, so their verdict is given with the request:
  rejected, or accepted with the parsed body.
\<close>

datatype 'b parsed = Rejected | Parsed 'b

definition serve_post ::
  "route \<Rightarrow> jsstring option \<Rightarrow> 'b parsed
     \<Rightarrow> ('b \<Rightarrow> route \<Rightarrow> device_info \<Rightarrow> 's \<Rightarrow> ('a, 's) outcome) \<Rightarrow> 's \<Rightarrow> ('a, 's) outcome" where
  "serve_post r authHeader request callback st =
     (case request of
        Rejected \<Rightarrow>
          \<lparr>reply = JsonFailure 500 (js ''Internal server error''), sends = [], state = st\<rparr>
      | Parsed b \<Rightarrow> handle_post r authHeader (callback b) st)"

section \<open>Formatting utilities\<close>

text \<open>
  \<open>Number.prototype.toFixed(f)\<close> on a number \<open>x\<close> with \<open>0 \<le> x < 10^21\<close>, the only
  range its callers reach: \<open>n\<close> is the integer for which \<open>n / 10^f - x\<close> is closest
  to zero, the larger one on a tie; its digits are padded with leading zeros to
  \<open>f + 1\<close> places and a point is put before the last \<open>f\<close> of them. A byte count is
  a non-negative integer below \<open>2^53\<close>, so the quotients by powers of two are exact
  and the number is modelled by a rational.
\<close>

definition fixed_digits :: "nat \<Rightarrow> nat \<Rightarrow> jsstring" where
  "fixed_digits f n =
     (let m0 = show_nat n;
          m = (if f \<noteq> 0 \<and> length m0 \<le> f then replicate (f + 1 - length m0) 48 @ m0 else m0)
      in if f = 0 then m else take (length m - f) m @ js ''.'' @ drop (length m - f) m)"

definition toFixed :: "nat \<Rightarrow> rat \<Rightarrow> jsstring" where
  "toFixed f x = fixed_digits f (nat \<lfloor>x * 10 ^ f + 1 / 2\<rfloor>)"

definition formatFileSize :: "nat \<Rightarrow> jsstring" where
  "formatFileSize bytes =
     (if bytes < 1024 then show_nat bytes @ js '' B''
      else if bytes < 1024 * 1024 then toFixed 1 (of_nat bytes / 1024) @ js '' KB''
      else if bytes < 1024 * 1024 * 1024 then toFixed 1 (of_nat bytes / (1024 * 1024)) @ js '' MB''
      else toFixed 2 (of_nat bytes / (1024 * 1024 * 1024)) @ js '' GB'')"

section \<open>Device directory\<close>

text \<open>
  The store keeps, under \<open>devices/<key>\<close>, one child per device id; the child's
  \<open>info\<close> node is written by the device. Each field of \<open>info\<close> may be missing. The
  numeric fields (\<open>time\<close> in milliseconds, \<open>battery\<close> in percent) are integers.
  \<open>a || b\<close> yields \<open>b\<close> when \<open>a\<close> is missing or falsy: the empty string and the
  number zero are falsy, an object never is.
\<close>

record device_node_info =
  info_model :: "jsstring option"
  info_time :: "int option"
  info_battery :: "int option"
  info_storage :: "(jsstring \<times> int) list option"
  info_permissions :: "(jsstring \<times> bool) list option"

record device_node =
  info :: "device_node_info option"

record device_summary =
  device_id :: jsstring
  model :: jsstring
  lastSeen :: int
  online :: bool
  battery :: int
  storage :: "(jsstring \<times> int) list"
  permissions :: "(jsstring \<times> bool) list"

definition or_string :: "jsstring option \<Rightarrow> jsstring \<Rightarrow> jsstring" where
  "or_string a b = (case a of None \<Rightarrow> b | Some s \<Rightarrow> if s = [] then b else s)"

definition or_number :: "int option \<Rightarrow> int \<Rightarrow> int" where
  "or_number a b = (case a of None \<Rightarrow> b | Some n \<Rightarrow> if n = 0 then b else n)"

definition or_object :: "'a option \<Rightarrow> 'a \<Rightarrow> 'a" where
  "or_object a b = (case a of None \<Rightarrow> b | Some x \<Rightarrow> x)"

text \<open>The function mapped over \<open>Object.entries(devices)\<close>; \<open>now\<close> is \<open>Date.now()\<close>.\<close>

definition device_entry :: "int \<Rightarrow> jsstring \<times> device_node \<Rightarrow> device_summary" where
  "device_entry now e =
     (case e of (ident, data) \<Rightarrow>
        \<lparr>device_id = ident,
         model = or_string (Option.bind (info data) info_model) (js ''Unknown''),
         lastSeen = or_number (Option.bind (info data) info_time) 0,
         online = (now - or_number (Option.bind (info data) info_time) 0 < 5 * 60 * 1000),
         battery = or_number (Option.bind (info data) info_battery) (- 1),
         storage = or_object (Option.bind (info data) info_storage) [],
         permissions = or_object (Option.bind (info data) info_permissions) []\<rparr>)"

record cache_entry =
  devices :: "device_summary list"
  timestamp :: int

type_synonym device_cache = "jsstring \<rightharpoonup> cache_entry"

text \<open>
  What \<open>db.ref("devices/" + key).once("value")\<close> gives: the read throws, or the
  snapshot is empty (\<open>val()\<close> is null), or it holds the children in key order.
\<close>

datatype store_read = ReadFailed | Absent | Children "(jsstring \<times> device_node) list"

definition DEVICE_CACHE_TTL :: int where
  "DEVICE_CACHE_TTL = 30000"

text \<open>
  \<open>getDevices\<close>: \<open>now0\<close> is the clock at the cache check, \<open>now1\<close> the clock while
  the entries are mapped (the map is synchronous) and \<open>now2\<close> the clock when the
  result is cached.
\<close>

definition fetchDevices ::
  "int \<Rightarrow> int \<Rightarrow> (jsstring \<Rightarrow> store_read) \<Rightarrow> jsstring \<Rightarrow> device_cache
     \<Rightarrow> device_summary list \<times> device_cache" where
  "fetchDevices now1 now2 db k deviceCache =
     (case db k of
        ReadFailed \<Rightarrow> ([], deviceCache)
      | Absent \<Rightarrow> ([], deviceCache)
      | Children cs \<Rightarrow>
          (let deviceList = map (device_entry now1) cs
           in (deviceList, deviceCache(k \<mapsto> \<lparr>devices = deviceList, timestamp = now2\<rparr>))))"

definition getDevices ::
  "int \<Rightarrow> int \<Rightarrow> int \<Rightarrow> (jsstring \<Rightarrow> store_read) \<Rightarrow> jsstring \<Rightarrow> device_cache
     \<Rightarrow> device_summary list \<times> device_cache" where
  "getDevices now0 now1 now2 db k deviceCache =
     (case deviceCache k of
        Some cached \<Rightarrow>
          if now0 - timestamp cached < DEVICE_CACHE_TTL then (devices cached, deviceCache)
          else fetchDevices now1 now2 db k deviceCache
      | None \<Rightarrow> fetchDevices now1 now2 db k deviceCache)"

section \<open>Process state and calls to the outside\<close>

text \<open>
  The process-wide maps. \<open>userSessions\<close> is iterated by \<open>getActiveSessions\<close> and
  by the sweep, in insertion order, so it is an association list with the update and
  delete of a JavaScript \<open>Map\<close>; the other maps are only looked up by key.
\<close>

type_synonym chat_id = int
type_synonym message_id = int

record session =
  key' :: jsstring
  selectedDevice :: "jsstring option"
  lastActivity :: int
  lastCommand :: "jsstring option"

record auth_prompt =
  messageId :: message_id
  timestamp' :: int

record custom_prompt =
  label :: jsstring
  promptId :: message_id
  device :: "jsstring option"

record operation =
  type' :: "jsstring option"
  startTime :: int
  device' :: "jsstring option"

record bot_state =
  userSessions :: "(chat_id \<times> session) list"
  awaitingAuth :: "chat_id \<rightharpoonup> auth_prompt"
  awaitingCustom :: "chat_id \<rightharpoonup> custom_prompt"
  activeOperations :: "chat_id \<rightharpoonup> operation"
  deviceCache :: device_cache

text \<open>
  A message is either a literal text or one of the fixed screens (a text template
  together with its inline keyboard), named after its heading in the source and
  carrying the values interpolated into it.
\<close>

datatype screen =
    LoginPrompt
  | SystemStatus "device_summary list"
  | DeviceControls
  | StoredPermissions "(jsstring \<times> bool) list" jsstring jsstring
  | ScanningPermissions
  | PermissionCenter jsstring
  | BatteryOptRequesting
  | BatteryOptSent jsstring
  | ControlCenter jsstring
  | ControlPanel jsstring
  | FileExplorer
  | LocationServices
  | DataExtraction
  | StealthCenter
  | PerfectionCenter
  | CameraMenu jsstring
  | GalleryManager
  | RecordingDuration jsstring
  | GalleryRequest jsstring
  | NothingToRefresh
  | NoDevicesFound
  | ConnectedDevices "device_summary list"
  | Authenticating
  | AuthSuccessful
  | AuthFailed
  | InvalidNumber
  | GalleryUploadStarted jsstring int
  | SearchingFiles jsstring
  | PermissionStatus jsstring
  | LogoutConfirmation
  | Goodbye

datatype message = Text jsstring | Screen screen

text \<open>The record written to \<open>devices/<key>/<device>\<close> to queue a command.\<close>

record queued_command =
  command :: jsstring
  chat :: chat_id
  msg :: message_id
  ts :: int

text \<open>
  The calls a handler makes, in order: to the bot gateway, to the animation helper
  (not expanded into its frames), to the store, and to the timer.
\<close>

datatype action =
    AnswerCallbackQuery jsstring "jsstring option" bool
  | SendMessage chat_id message
  | EditMessageText chat_id message_id message
  | SendAnimation chat_id screen
  | DeleteMessage chat_id message_id
  | ShowAnimatedLoading chat_id message_id jsstring nat
  | StoreUpdate jsstring "jsstring option" queued_command
  | Sleep nat
  | ShowDeviceSelectionLater chat_id nat

definition getActiveSessions :: "jsstring \<Rightarrow> (chat_id \<times> session) list \<Rightarrow> (chat_id \<times> session) list" where
  "getActiveSessions k sessions = filter (\<lambda>(chatId, s). key' s = k) sessions"

section \<open>Text exports: contacts and SMS\<close>

text \<open>
  \<open>data.match(new RegExp(".{1,4000}", "g")) || []\<close>. Without the \<open>s\<close> flag the
  dot matches any code unit except the line terminators U+000A, U+000D, U+2028 and
  U+2029. The global match scans from the left: at a line terminator nothing matches
  and the scan moves on by one; elsewhere the match is greedy, the longest run of up
  to \<open>n\<close> code units free of line terminators, and the scan resumes after it. With no
  match at all the result is \<open>null\<close> and the fallback is the empty array. (The source
  has \<open>n = 4000\<close>; for \<open>n = 0\<close> nothing could match.)
\<close>

definition is_line_terminator :: "nat \<Rightarrow> bool" where
  "is_line_terminator c \<longleftrightarrow> c = 0x0A \<or> c = 0x0D \<or> c = 0x2028 \<or> c = 0x2029"

function dot_chunks :: "nat \<Rightarrow> jsstring \<Rightarrow> jsstring list" where
  "dot_chunks n [] = []"
| "dot_chunks n (c # cs) =
     (if is_line_terminator c \<or> n = 0 then dot_chunks n cs
      else (let m = take n (takeWhile (\<lambda>x. \<not> is_line_terminator x) (c # cs))
            in m # dot_chunks n (drop (length m) (c # cs))))"
  by pat_completeness auto
termination
  by (relation "measure (\<lambda>(n, s). length s)") (auto simp add: less_Suc_eq_le)

declare dot_chunks.simps [simp del]

definition fence :: jsstring where
  "fence = [96, 96, 96]"

text \<open>
  The texts sent for one chat. \<open>title\<close> is the heading up to the word "Export":
  a mobile-phone emoji and " *Contacts Export" for contacts, a speech-balloon emoji and
  " *SMS Export" for SMS.
\<close>

definition export_parts :: "jsstring \<Rightarrow> jsstring \<Rightarrow> jsstring list" where
  "export_parts title data =
     (let maxLength = 4000
      in if length data > maxLength
         then (let chunks = dot_chunks maxLength data
               in map (\<lambda>i. title @ js '' (Part '' @ show_nat (i + 1) @ js ''/''
                              @ show_nat (length chunks) @ js '')*'' @ [10, 10]
                              @ fence @ [10] @ chunks ! i @ [10] @ fence)
                      [0..<length chunks])
         else [title @ js ''*'' @ [10, 10] @ fence @ [10] @ data @ [10] @ fence])"

definition contacts_title :: jsstring where
  "contacts_title = cp 0x1F4F1 @ js '' *Contacts Export''"

definition sms_title :: jsstring where
  "sms_title = cp 0x1F4AC @ js '' *SMS Export''"

text \<open>
  The body of \<open>/text/contacts\<close> and \<open>/text/sms\<close>: every chat whose session holds
  the key gets the parts in order. Each gateway call is taken to succeed (a failing
  send is logged and ends that chat's parts; the reply is the same).
\<close>

definition text_export ::
  "jsstring \<Rightarrow> jsstring \<Rightarrow> route \<Rightarrow> device_info \<Rightarrow> bot_state \<Rightarrow> (action, bot_state) outcome" where
  "text_export title data r deviceInfo st =
     \<lparr>reply = JsonOk,
      sends = concat (map (\<lambda>(chatId, s). map (\<lambda>t. SendMessage chatId (Text t))
                                              (export_parts title data))
                          (getActiveSessions (key deviceInfo) (userSessions st))),
      state = st\<rparr>"

definition post_text_contacts ::
  "jsstring option \<Rightarrow> jsstring \<Rightarrow> bot_state \<Rightarrow> (action, bot_state) outcome" where
  "post_text_contacts authHeader data st =
     handle_post TextContacts authHeader (text_export contacts_title data) st"

definition post_text_sms ::
  "jsstring option \<Rightarrow> jsstring \<Rightarrow> bot_state \<Rightarrow> (action, bot_state) outcome" where
  "post_text_sms authHeader data st =
     handle_post TextSms authHeader (text_export sms_title data) st"

section \<open>Permission report\<close>

text \<open>
  Numbers of the host language, as far as the permission summary needs them: a finite
  double (the rational it stands for), \<open>NaN\<close>, or an infinity. The sign of zero
  plays no part.
\<close>

datatype jsnum = Num rat | NaN | PosInfinity | NegInfinity

text \<open>
  An arithmetic operation yields the double nearest to the exact result, a tie going to
  the double whose last bit is even: 53 significant bits, the unit in the last place
  never below \<open>2^-1074\<close>, and an infinity from \<open>2^1024\<close> on. \<open>floor_log2\<close> is
  the binary exponent of a positive rational \<open>q\<close>: one less than the bit length of
  its whole part when \<open>q\<close> is at least 1, and otherwise the negated bit length of
  the whole number just below \<open>1 / q\<close>.
\<close>

fun bit_length :: "nat \<Rightarrow> nat" where
  "bit_length n = (if n = 0 then 0 else Suc (bit_length (n div 2)))"

declare bit_length.simps [simp del]

definition two_to :: "int \<Rightarrow> rat" where
  "two_to e = (if 0 \<le> e then 2 ^ nat e else 1 / 2 ^ nat (- e))"

definition floor_log2 :: "rat \<Rightarrow> int" where
  "floor_log2 q =
     (if 1 \<le> q then int (bit_length (nat \<lfloor>q\<rfloor>)) - 1
      else - int (bit_length (nat (\<lceil>1 / q\<rceil> - 1))))"

definition round_half_even :: "rat \<Rightarrow> int" where
  "round_half_even x =
     (let f = \<lfloor>x\<rfloor>; r = x - of_int f
      in if r < 1 / 2 then f else if 1 / 2 < r then f + 1 else if even f then f else f + 1)"

definition to_double :: "rat \<Rightarrow> jsnum" where
  "to_double q =
     (if q = 0 then Num 0
      else (let a = \<bar>q\<bar>;
                ulp = two_to (max (floor_log2 a - 52) (- 1074));
                r = of_int (round_half_even (a / ulp)) * ulp
            in if 2 ^ 1024 \<le> r then (if 0 < q then PosInfinity else NegInfinity)
               else Num (if 0 < q then r else - r)))"

fun js_divide :: "jsnum \<Rightarrow> jsnum \<Rightarrow> jsnum" where
  "js_divide (Num a) (Num b) =
     (if b \<noteq> 0 then to_double (a / b)
      else if a = 0 then NaN
      else if 0 < a then PosInfinity else NegInfinity)"
| "js_divide (Num a) PosInfinity = Num 0"
| "js_divide (Num a) NegInfinity = Num 0"
| "js_divide PosInfinity (Num b) = (if 0 \<le> b then PosInfinity else NegInfinity)"
| "js_divide NegInfinity (Num b) = (if 0 \<le> b then NegInfinity else PosInfinity)"
| "js_divide _ _ = NaN"

fun js_times :: "jsnum \<Rightarrow> jsnum \<Rightarrow> jsnum" where
  "js_times (Num a) (Num b) = to_double (a * b)"
| "js_times NaN _ = NaN"
| "js_times _ NaN = NaN"
| "js_times PosInfinity (Num b) = (if b = 0 then NaN else if 0 < b then PosInfinity else NegInfinity)"
| "js_times NegInfinity (Num b) = (if b = 0 then NaN else if 0 < b then NegInfinity else PosInfinity)"
| "js_times (Num a) PosInfinity = (if a = 0 then NaN else if 0 < a then PosInfinity else NegInfinity)"
| "js_times (Num a) NegInfinity = (if a = 0 then NaN else if 0 < a then NegInfinity else PosInfinity)"
| "js_times PosInfinity PosInfinity = PosInfinity"
| "js_times NegInfinity NegInfinity = PosInfinity"
| "js_times PosInfinity NegInfinity = NegInfinity"
| "js_times NegInfinity PosInfinity = NegInfinity"

fun js_minus :: "jsnum \<Rightarrow> jsnum \<Rightarrow> jsnum" where
  "js_minus (Num a) (Num b) = to_double (a - b)"
| "js_minus NaN _ = NaN"
| "js_minus _ NaN = NaN"
| "js_minus PosInfinity PosInfinity = NaN"
| "js_minus NegInfinity NegInfinity = NaN"
| "js_minus PosInfinity _ = PosInfinity"
| "js_minus NegInfinity _ = NegInfinity"
| "js_minus (Num a) PosInfinity = NegInfinity"
| "js_minus (Num a) NegInfinity = PosInfinity"

text \<open>
  \<open>Math.round\<close> and \<open>Math.floor\<close> are exact on the double they are given; a
  tie of \<open>Math.round\<close> goes upwards.
\<close>

fun Math_round :: "jsnum \<Rightarrow> jsnum" where
  "Math_round (Num a) = Num (of_int \<lfloor>a + 1 / 2\<rfloor>)"
| "Math_round x = x"

fun Math_floor :: "jsnum \<Rightarrow> jsnum" where
  "Math_floor (Num a) = Num (of_int \<lfloor>a\<rfloor>)"
| "Math_floor x = x"

text \<open>
  A number inside a template string. The summary only prints what \<open>Math.round\<close>
  returned, so a finite value is a whole number and prints as its digits.
\<close>

fun number_string :: "jsnum \<Rightarrow> jsstring" where
  "number_string (Num a) = show_int \<lfloor>a\<rfloor>"
| "number_string NaN = js ''NaN''"
| "number_string PosInfinity = js ''Infinity''"
| "number_string NegInfinity = js ''-Infinity''"

datatype js_error = RangeError

text \<open>
  \<open>String.prototype.repeat(count)\<close>: the count is converted to an integer, \<open>NaN\<close>
  becoming 0 and a fraction being cut towards zero; a negative or infinite count throws.
\<close>

fun js_repeat :: "jsstring \<Rightarrow> jsnum \<Rightarrow> js_error + jsstring" where
  "js_repeat s NaN = Inr []"
| "js_repeat s (Num a) =
     (let n = (if 0 \<le> a then \<lfloor>a\<rfloor> else \<lceil>a\<rceil>)
      in if n < 0 then Inl RangeError else Inr (concat (replicate (nat n) s)))"
| "js_repeat s PosInfinity = Inl RangeError"
| "js_repeat s NegInfinity = Inl RangeError"

text \<open>
  A property lookup on an object literal finds, besides the literal's own entries, what
  every object inherits from \<open>Object.prototype\<close>: a function, and for \<open>__proto__\<close>
  the prototype itself. All of them are truthy. \<open>inherited_text\<close> is what a template
  string prints for such a value.
\<close>

definition object_prototype_keys :: "jsstring list" where
  "object_prototype_keys =
     [js ''constructor'', js ''__defineGetter__'', js ''__defineSetter__'',
      js ''hasOwnProperty'', js ''__lookupGetter__'', js ''__lookupSetter__'',
      js ''isPrototypeOf'', js ''propertyIsEnumerable'', js ''toString'', js ''valueOf'',
      js ''__proto__'', js ''toLocaleString'']"

definition inherited_text :: "jsstring \<Rightarrow> jsstring option" where
  "inherited_text k =
     (if k \<notin> set object_prototype_keys then None
      else if k = js ''__proto__'' then Some (js ''[object Object]'')
      else Some (js ''function '' @ (if k = js ''constructor'' then js ''Object'' else k)
                 @ js ''() { [native code] }''))"

definition permissionEmojis :: "(jsstring \<times> jsstring) list" where
  "permissionEmojis =
     [(js ''camera'', cp 0x1F4F8),
      (js ''location_fine'', cp 0x1F4CD),
      (js ''location_coarse'', cp 0x1F4CD),
      (js ''contacts'', cp 0x1F4F1),
      (js ''sms'', cp 0x1F4AC),
      (js ''storage_read'', cp 0x1F4C2),
      (js ''storage_write'', cp 0x1F4C2),
      (js ''phone'', cp 0x1F4DE),
      (js ''microphone'', cp 0x1F3A4),
      (js ''notifications'', cp 0x1F514),
      (js ''all_files_access'', cp 0x1F4C1),
      (js ''overlay'', cp 0x1F5BC @ cp 0xFE0F),
      (js ''device_admin'', cp 0x2699 @ cp 0xFE0F),
      (js ''accessibility'', cp 0x267F),
      (js ''notification_listener'', cp 0x1F514),
      (js ''call_log'', cp 0x1F4DE),
      (js ''calendar'', cp 0x1F4C5)]"

definition permissionDisplayNames :: "(jsstring \<times> jsstring) list" where
  "permissionDisplayNames =
     [(js ''camera'', js ''Camera''),
      (js ''location_fine'', js ''Location (Fine)''),
      (js ''location_coarse'', js ''Location (Coarse)''),
      (js ''contacts'', js ''Contacts''),
      (js ''sms'', js ''SMS''),
      (js ''storage_read'', js ''Storage Read''),
      (js ''storage_write'', js ''Storage Write''),
      (js ''phone'', js ''Phone''),
      (js ''microphone'', js ''Microphone''),
      (js ''notifications'', js ''Notifications''),
      (js ''all_files_access'', js ''All Files Access''),
      (js ''overlay'', js ''Overlay''),
      (js ''device_admin'', js ''Device Admin''),
      (js ''accessibility'', js ''Accessibility''),
      (js ''notification_listener'', js ''Notification Listener''),
      (js ''call_log'', js ''Call Log''),
      (js ''calendar'', js ''Calendar'')]"

text \<open>
  One line of the report: \<open>permissionEmojis[perm] || "?"\<close>, a space, and
  \<open>permissionDisplayNames[perm] || perm\<close>. Neither table has an entry under an
  inherited name, so for such a name both lookups find the inherited value.
\<close>

definition permission_line :: "jsstring \<Rightarrow> jsstring" where
  "permission_line perm =
     (case inherited_text perm of
        Some printed \<Rightarrow> printed @ js '' '' @ printed
      | None \<Rightarrow>
          or_string (map_of permissionEmojis perm) (cp 0x2753) @ js '' ''
            @ or_string (map_of permissionDisplayNames perm) perm)"

definition permissionPercentage :: "(jsstring \<times> bool) list \<Rightarrow> jsnum" where
  "permissionPercentage perms =
     (let totalPermissions = length perms;
          grantedPermissions = length (filter snd perms)
      in Math_round (js_times (js_divide (Num (of_nat grantedPermissions))
                                         (Num (of_nat totalPermissions)))
                              (Num 100)))"

definition progressBar :: "jsnum \<Rightarrow> js_error + jsstring" where
  "progressBar pct =
     (case js_repeat (cp 0x2588) (Math_floor (js_divide pct (Num 10))) of
        Inl e \<Rightarrow> Inl e
      | Inr filled \<Rightarrow>
          (case js_repeat (cp 0x2591) (js_minus (Num 10) (Math_floor (js_divide pct (Num 10)))) of
             Inl e \<Rightarrow> Inl e
           | Inr rest \<Rightarrow> Inr (filled @ rest)))"

text \<open>
  The message of \<open>/json/permissions\<close>; \<open>stamp\<close> is what
  \<open>new Date().toLocaleTimeString()\<close> returned. A throw while the message is put
  together is the \<open>Inl\<close> case; the route's \<open>catch\<close> then replies 500 with the
  error's message, which for \<open>repeat\<close> starts with "Invalid count value".
\<close>

definition permissions_message ::
  "jsstring \<Rightarrow> device_info \<Rightarrow> (jsstring \<times> bool) list \<Rightarrow> js_error + jsstring" where
  "permissions_message stamp deviceInfo perms =
     (let totalPermissions = length perms;
          grantedPermissions = length (filter snd perms);
          deniedPermissions = totalPermissions - grantedPermissions;
          pct = permissionPercentage perms
      in case progressBar pct of
           Inl e \<Rightarrow> Inl e
         | Inr bar \<Rightarrow>
             (let grantedPerms = map (permission_line \<circ> fst) (filter snd perms);
                  deniedPerms = map (permission_line \<circ> fst) (filter (\<lambda>p. \<not> snd p) perms)
              in Inr (js ''*'' @ cp 0x1F510 @ js '' Device Permission Status*'' @ [10, 10]
                      @ js ''_Last updated: '' @ stamp @ js ''_'' @ [10, 10]
                      @ cp 0x1F4CA @ js '' *Permission Summary:*'' @ [10]
                      @ cp 0x2705 @ js '' Granted: '' @ show_nat grantedPermissions @ js ''/''
                        @ show_nat totalPermissions @ js '' ('' @ number_string pct @ js ''%)'' @ [10]
                      @ cp 0x274C @ js '' Denied: '' @ show_nat deniedPermissions @ js ''/''
                        @ show_nat totalPermissions @ [10, 10]
                      @ js ''Progress: ['' @ bar @ js ''] '' @ number_string pct @ js ''%'' @ [10, 10]
                      @ (if deniedPerms \<noteq> []
                         then cp 0x274C @ js '' *Missing Permissions:*'' @ [10]
                              @ concat (map (\<lambda>p. cp 0x2022 @ js '' '' @ p @ [10]) deniedPerms) @ [10]
                         else [])
                      @ (if grantedPerms \<noteq> []
                         then cp 0x2705 @ js '' *Granted Permissions:*'' @ [10]
                              @ concat (map (\<lambda>p. cp 0x2022 @ js '' '' @ p @ [10]) grantedPerms) @ [10]
                         else [])
                      @ js ''_Device: '' @ take 6 (deviceId deviceInfo) @ js ''_'')))"

text \<open>
  How the gateway answers the edit: it succeeds, or it fails with a description that
  contains "message is not modified", or it fails otherwise with the given message.
\<close>

datatype edit_result = EditOk | EditNotModified | EditFailed jsstring

record permissions_body =
  chat_id :: chat_id
  msg_id :: message_id
  permissions' :: "(jsstring \<times> bool) list"

definition json_permissions ::
  "edit_result \<Rightarrow> jsstring \<Rightarrow> permissions_body \<Rightarrow> route \<Rightarrow> device_info \<Rightarrow> 's
     \<Rightarrow> (action, 's) outcome" where
  "json_permissions edited stamp body r deviceInfo st =
     (case permissions_message stamp deviceInfo (permissions' body) of
        Inl e \<Rightarrow> \<lparr>reply = JsonFailure 500 (js ''Invalid count value''), sends = [], state = st\<rparr>
      | Inr message \<Rightarrow>
          (let edit = EditMessageText (chat_id body) (msg_id body) (Screen (PermissionStatus message))
           in case edited of
                EditOk \<Rightarrow> \<lparr>reply = JsonOk, sends = [edit], state = st\<rparr>
              | EditNotModified \<Rightarrow> \<lparr>reply = NoReply, sends = [edit], state = st\<rparr>
              | EditFailed description \<Rightarrow>
                  \<lparr>reply = JsonFailure 500 description, sends = [edit], state = st\<rparr>))"

definition post_json_permissions ::
  "jsstring option \<Rightarrow> edit_result \<Rightarrow> jsstring \<Rightarrow> permissions_body \<Rightarrow> 's \<Rightarrow> (action, 's) outcome" where
  "post_json_permissions authHeader edited stamp body st =
     handle_post JsonPermissions authHeader (json_permissions edited stamp body) st"

section \<open>More string operations\<close>

definition startsWith :: "jsstring \<Rightarrow> jsstring \<Rightarrow> bool" where
  "startsWith s p \<longleftrightarrow> take (length p) s = p"

text \<open>
  The white space that \<open>trim\<close> and \<open>parseInt\<close> strip: the WhiteSpace and
  LineTerminator code points of the language.
\<close>

definition is_white_space :: "nat \<Rightarrow> bool" where
  "is_white_space c \<longleftrightarrow>
     c = 0x09 \<or> c = 0x0A \<or> c = 0x0B \<or> c = 0x0C \<or> c = 0x0D \<or> c = 0x20 \<or> c = 0xA0
     \<or> c = 0x1680 \<or> (0x2000 \<le> c \<and> c \<le> 0x200A) \<or> c = 0x2028 \<or> c = 0x2029
     \<or> c = 0x202F \<or> c = 0x205F \<or> c = 0x3000 \<or> c = 0xFEFF"

definition trim :: "jsstring \<Rightarrow> jsstring" where
  "trim s = rev (dropWhile is_white_space (rev (dropWhile is_white_space s)))"

definition is_digit :: "nat \<Rightarrow> bool" where
  "is_digit c \<longleftrightarrow> 48 \<le> c \<and> c \<le> 57"

definition digits_value :: "jsstring \<Rightarrow> int" where
  "digits_value z = foldl (\<lambda>a c. 10 * a + int (c - 48)) 0 z"

text \<open>
  \<open>parseInt(s, 10)\<close>: leading white space is skipped, one sign is read, then the
  longest run of decimal digits; with no digit the result is \<open>NaN\<close>, here \<open>None\<close>.
  The value is kept as an exact integer; the source only compares it with 1 and 200
  and prints it when it lies between them.
\<close>

definition parseInt10 :: "jsstring \<Rightarrow> int option" where
  "parseInt10 s =
     (let S = dropWhile is_white_space s;
          sign = (if S \<noteq> [] \<and> hd S = 45 then - 1 else 1);
          S' = (if S \<noteq> [] \<and> (hd S = 43 \<or> hd S = 45) then tl S else S);
          Z = takeWhile is_digit S'
      in if Z = [] then None else Some (sign * digits_value Z))"

text \<open>\<open>padStart(n, c)\<close> with a filler of one code unit.\<close>

definition padStart :: "nat \<Rightarrow> nat \<Rightarrow> jsstring \<Rightarrow> jsstring" where
  "padStart n c s = replicate (n - length s) c @ s"

text \<open>An optional string is truthy when it is there and not empty.\<close>

definition truthy :: "jsstring option \<Rightarrow> bool" where
  "truthy x = (case x of None \<Rightarrow> False | Some s \<Rightarrow> s \<noteq> [])"

section \<open>Chat handlers\<close>

text \<open>
  What a handler reads from outside during one run: the clock (one reading for the
  run), the store's answer for \<open>devices/<key>\<close>, whether \<open>devices/<key>\<close> exists,
  the \<open>info\<close> node of a device as the permission checker reads it, and the id the
  gateway gives to the message the handler sends and refers to later. Calls to the
  gateway and writes to the store are taken to succeed.
\<close>

datatype info_read = InfoFailed | Info "(jsstring \<times> bool) list" "jsstring option"

record env =
  env_now :: int
  env_db :: "jsstring \<Rightarrow> store_read"
  env_exists :: "jsstring \<Rightarrow> bool"
  env_info :: "jsstring \<Rightarrow> jsstring \<Rightarrow> info_read"
  env_sent_id :: message_id

definition showDeviceSelection :: "env \<Rightarrow> chat_id \<Rightarrow> bot_state \<Rightarrow> action list \<times> bot_state" where
  "showDeviceSelection e chatId st =
     (case map_of (userSessions st) chatId of
        None \<Rightarrow> ([], st)
      | Some session \<Rightarrow>
          (let (devs, cache') = getDevices (env_now e) (env_now e) (env_now e) (env_db e)
                                  (key' session) (deviceCache st);
               st' = st\<lparr>deviceCache := cache'\<rparr>
           in if devs = [] then ([SendAnimation chatId NoDevicesFound], st')
              else ([SendMessage chatId (Screen (ConnectedDevices devs))], st')))"

subsection \<open>Text messages\<close>

record incoming =
  m_text :: "jsstring option"
  m_chat :: chat_id
  m_id :: message_id
  m_reply_to :: "message_id option"

definition auth_reply :: "env \<Rightarrow> incoming \<Rightarrow> jsstring \<Rightarrow> bot_state \<Rightarrow> action list \<times> bot_state" where
  "auth_reply e m text st =
     (let chatId = m_chat m;
          k = trim text;
          st1 = st\<lparr>awaitingAuth := (awaitingAuth st)(chatId := None)\<rparr>;
          first = [DeleteMessage chatId (m_id m), SendAnimation chatId Authenticating]
      in if env_exists e k
         then (first @ [DeleteMessage chatId (env_sent_id e), SendAnimation chatId AuthSuccessful,
                        ShowDeviceSelectionLater chatId 2000],
               st1\<lparr>userSessions :=
                      AList.update chatId
                        \<lparr>key' = k, selectedDevice = None, lastActivity = env_now e,
                         lastCommand = None\<rparr>
                        (userSessions st1)\<rparr>)
         else (first @ [DeleteMessage chatId (env_sent_id e), SendAnimation chatId AuthFailed], st1))"

text \<open>
  The reply to a custom-count prompt. The third component tells whether the handler
  has returned; after an accepted count it runs on to the \<open>/search\<close> test.
\<close>

definition custom_count_reply ::
  "env \<Rightarrow> incoming \<Rightarrow> jsstring \<Rightarrow> custom_prompt \<Rightarrow> bot_state \<Rightarrow> action list \<times> bot_state \<times> bool" where
  "custom_count_reply e m text customState st =
     (let chatId = m_chat m;
          n = parseInt10 (trim text)
      in case n of
           None \<Rightarrow> ([SendMessage chatId (Screen InvalidNumber)], st, True)
         | Some v \<Rightarrow>
             if v < 1 \<or> v > 200 then ([SendMessage chatId (Screen InvalidNumber)], st, True)
             else (case map_of (userSessions st) chatId of
                     None \<Rightarrow> ([], st, True)
                   | Some session \<Rightarrow>
                       if \<not> truthy (selectedDevice session) then ([], st, True)
                       else (let cmd = js ''gopics_'' @ label customState @ js ''_''
                                         @ padStart 3 48 (show_int v)
                             in ([SendMessage chatId
                                    (Screen (GalleryUploadStarted (label customState) v)),
                                  StoreUpdate (key' session) (selectedDevice session)
                                    \<lparr>command = cmd, chat = chatId, msg = env_sent_id e,
                                     ts = env_now e\<rparr>],
                                 st\<lparr>awaitingCustom := (awaitingCustom st)(chatId := None)\<rparr>,
                                 False))))"

definition search_command :: "env \<Rightarrow> incoming \<Rightarrow> jsstring \<Rightarrow> bot_state \<Rightarrow> action list \<times> bot_state" where
  "search_command e m text st =
     (let chatId = m_chat m
      in if startsWith text (js ''/search '')
         then (case map_of (userSessions st) chatId of
                 None \<Rightarrow>
                   ([SendMessage chatId (Text (js ''Please login and select a device first.''))], st)
               | Some session \<Rightarrow>
                   if \<not> truthy (selectedDevice session)
                   then ([SendMessage chatId
                            (Text (js ''Please login and select a device first.''))], st)
                   else (let query = trim (drop 8 text)
                         in if length query < 2
                            then ([SendMessage chatId
                                     (Text (js ''Search query must be at least 2 characters.''))], st)
                            else ([SendMessage chatId (Screen (SearchingFiles query)),
                                   StoreUpdate (key' session) (selectedDevice session)
                                     \<lparr>command = js ''filesearch_'' @ query, chat = chatId,
                                      msg = env_sent_id e, ts = env_now e\<rparr>], st)))
         else ([], st))"

definition on_message :: "env \<Rightarrow> incoming \<Rightarrow> bot_state \<Rightarrow> action list \<times> bot_state" where
  "on_message e m st =
     (case m_text m of
        None \<Rightarrow> ([], st)
      | Some text \<Rightarrow>
          if text = [] then ([], st)
          else if (case awaitingAuth st (m_chat m) of
                     None \<Rightarrow> False
                   | Some authState \<Rightarrow> m_reply_to m = Some (messageId authState))
          then auth_reply e m text st
          else (case awaitingCustom st (m_chat m) of
                  None \<Rightarrow> search_command e m text st
                | Some customState \<Rightarrow>
                    if m_reply_to m = Some (promptId customState)
                    then (case custom_count_reply e m text customState st of
                            (acts, st', returned) \<Rightarrow>
                              if returned then (acts, st')
                              else (case search_command e m text st' of
                                      (acts', st'') \<Rightarrow> (acts @ acts', st'')))
                    else search_command e m text st))"

subsection \<open>Inline-button presses\<close>

record callback_query =
  q_id :: jsstring
  q_data :: jsstring
  q_chat :: chat_id
  q_msg :: message_id

text \<open>
  The table of direct commands: identifier, animation type, text of the answer.
\<close>

definition commandMap :: "(jsstring \<times> jsstring \<times> jsstring) list" where
  "commandMap =
     [(js ''capture_front'', js ''photo'', cp 0x1F4F8 @ js '' Capturing front photo...''),
      (js ''capture_back'', js ''photo'', cp 0x1F4F7 @ js '' Capturing back photo...''),
      (js ''loc_now'', js ''location'', cp 0x1F4CD @ js '' Getting current location...''),
      (js ''loc_start'', js ''location'', cp 0x1F3AF @ js '' Starting location tracking...''),
      (js ''loc_stop'', js ''location'', cp 0x23F9 @ cp 0xFE0F @ js '' Stopping location tracking...''),
      (js ''dump_contacts'', js ''contacts'', cp 0x1F4F1 @ js '' Extracting contacts...''),
      (js ''dump_sms'', js ''sms'', cp 0x1F4AC @ js '' Extracting SMS messages...''),
      (js ''device_info'', js ''files'', cp 0x1F4CA @ js '' Getting device information...''),
      (js ''file_root'', js ''files'', cp 0x1F4C2 @ js '' Loading file explorer...''),
      (js ''file_quick'', js ''files'', cp 0x26A1 @ js '' Loading quick access...''),
      (js ''file_storage'', js ''files'', cp 0x1F4BE @ js '' Calculating storage...''),
      (js ''battery_status'', js ''default'', cp 0x1F50B @ js '' Getting battery status...''),
      (js ''network_info'', js ''default'', cp 0x1F4F6 @ js '' Getting network info...''),
      (js ''app_list'', js ''default'', cp 0x1F4F1 @ js '' Getting app list...''),
      (js ''restart_services'', js ''default'', cp 0x1F504 @ js '' Restarting services...''),
      (js ''clipboard_monitor'', js ''monitoring'', cp 0x1F4CB @ js '' Accessing clipboard history...''),
      (js ''app_usage'', js ''monitoring'', cp 0x1F4F1 @ js '' Analyzing app usage patterns...''),
      (js ''system_state'', js ''monitoring'', cp 0x1F4CA @ js '' Reading system state...''),
      (js ''input_patterns'', js ''monitoring'', cp 0x2328 @ cp 0xFE0F @ js '' Analyzing input patterns...''),
      (js ''monitor_dashboard'', js ''stealth'', cp 0x1F4C8 @ js '' Loading monitor dashboard...''),
      (js ''start_monitoring'', js ''stealth'', cp 0x1F504 @ js '' Starting stealth monitoring...''),
      (js ''stop_monitoring'', js ''stealth'', cp 0x23F9 @ cp 0xFE0F @ js '' Stopping monitoring...''),
      (js ''network_intelligence'', js ''perfection'', cp 0x1F310 @ js '' Analyzing network intelligence...''),
      (js ''behavior_analysis'', js ''perfection'', cp 0x1F9E0 @ js '' Processing behavior patterns...''),
      (js ''sensor_intelligence'', js ''perfection'', cp 0x1F4E1 @ js '' Reading sensor intelligence...''),
      (js ''system_intelligence'', js ''perfection'', cp 0x26A1 @ js '' Analyzing system intelligence...''),
      (js ''perfection_dashboard'', js ''perfection'', cp 0x1F4CA @ js '' Loading perfection dashboard...''),
      (js ''start_perfection'', js ''perfection'', cp 0x1F680 @ js '' Starting enhanced perfection...''),
      (js ''stop_perfection'', js ''perfection'', cp 0x23F9 @ cp 0xFE0F @ js '' Stopping perfection service...'')]"

text \<open>
  \<open>commandMap[data]\<close> is a property lookup on an object literal: besides the entries
  of the table it finds what the object inherits, which is truthy and has neither
  \<open>type\<close> nor \<open>msg\<close>.
\<close>

definition command_lookup :: "jsstring \<Rightarrow> (jsstring option \<times> jsstring option) option" where
  "command_lookup d =
     (case map_of commandMap d of
        Some (kind, answer) \<Rightarrow> Some (Some kind, Some answer)
      | None \<Rightarrow> if d \<in> set object_prototype_keys then Some (None, None) else None)"

definition no_device_selected :: jsstring where
  "no_device_selected = cp 0x26A0 @ cp 0xFE0F @ js '' No device selected''"

definition session_expired_alert :: jsstring where
  "session_expired_alert = cp 0x26A0 @ cp 0xFE0F @ js '' Session expired. Please login again.''"

definition session_expired_prompt :: jsstring where
  "session_expired_prompt = js ''Session expired. Please use /start to login again.''"

definition select_device_first :: jsstring where
  "select_device_first = cp 0x26A0 @ cp 0xFE0F @ js '' Please select a device first''"

text \<open>
  The three permission branches test \<open>!session || !session.selectedDevice\<close>
  themselves; \<open>usable_session\<close> gives the session and its device when the test passes.
\<close>

definition usable_session :: "session option \<Rightarrow> (session \<times> jsstring) option" where
  "usable_session s =
     (case s of
        None \<Rightarrow> None
      | Some session \<Rightarrow>
          (case selectedDevice session of
             None \<Rightarrow> None
           | Some d \<Rightarrow> if d = [] then None else Some (session, d)))"

definition check_permissions :: "env \<Rightarrow> callback_query \<Rightarrow> bot_state \<Rightarrow> action list \<times> bot_state" where
  "check_permissions e q st =
     (let first = AnswerCallbackQuery (q_id q) (Some (js ''Checking permissions...'')) False
      in case usable_session (map_of (userSessions st) (q_chat q)) of
           None \<Rightarrow> ([first, AnswerCallbackQuery (q_id q) (Some no_device_selected) True], st)
         | Some (session, d) \<Rightarrow>
             (let fresh = [EditMessageText (q_chat q) (q_msg q) (Screen ScanningPermissions),
                           StoreUpdate (key' session) (Some d)
                             \<lparr>command = js ''check_permissions'', chat = q_chat q, msg = q_msg q,
                              ts = env_now e\<rparr>]
              in case env_info e (key' session) d of
                   InfoFailed \<Rightarrow> (first # fresh, st)
                 | Info storedPermissions batteryOpt \<Rightarrow>
                     if storedPermissions \<noteq> []
                     then ([first, EditMessageText (q_chat q) (q_msg q)
                                     (Screen (StoredPermissions storedPermissions
                                                (or_string batteryOpt (js ''unknown''))
                                                (take 6 d)))], st)
                     else (first # fresh, st)))"

definition permissions_menu :: "callback_query \<Rightarrow> bot_state \<Rightarrow> action list \<times> bot_state" where
  "permissions_menu q st =
     (let first = AnswerCallbackQuery (q_id q) (Some (js ''Opening permissions menu...'')) False
      in case usable_session (map_of (userSessions st) (q_chat q)) of
           None \<Rightarrow> ([first, AnswerCallbackQuery (q_id q) (Some no_device_selected) True], st)
         | Some (session, d) \<Rightarrow>
             ([first, EditMessageText (q_chat q) (q_msg q) (Screen (PermissionCenter (take 6 d)))],
              st))"

definition battery_optimization :: "env \<Rightarrow> callback_query \<Rightarrow> bot_state \<Rightarrow> action list \<times> bot_state" where
  "battery_optimization e q st =
     (let first = AnswerCallbackQuery (q_id q)
                    (Some (cp 0x1F50B @ js '' Requesting battery optimization...'')) False
      in case usable_session (map_of (userSessions st) (q_chat q)) of
           None \<Rightarrow> ([first, AnswerCallbackQuery (q_id q) (Some no_device_selected) True], st)
         | Some (session, d) \<Rightarrow>
             ([first,
               EditMessageText (q_chat q) (q_msg q) (Screen BatteryOptRequesting),
               StoreUpdate (key' session) (Some d)
                 \<lparr>command = js ''request_battery_optimization'', chat = q_chat q, msg = q_msg q,
                  ts = env_now e\<rparr>,
               Sleep 2000,
               EditMessageText (q_chat q) (q_msg q) (Screen (BatteryOptSent (take 6 d)))],
              st))"

text \<open>
  Two listeners are registered for \<open>callback_query\<close>, and the emitter calls both for
  every query: the first runs to its first \<open>await\<close>, then the second runs to its
  first \<open>await\<close>, and from there each goes on as the gateway answers. In every branch
  of the first listener the first \<open>await\<close> is its first answer to the query, so what
  the listener does to the maps before that answer happens before the second listener
  starts, and what it reads or writes afterwards happens after the second listener's
  first stretch. \<open>resumed\<close> is what that stretch does to the state.

  The session object is shared with the map: an assignment to one of its fields is
  seen through the map as long as the object is still in the map (\<open>mutate_session\<close>).
  \<open>session\<close> is the object as the handler holds it.
\<close>

definition mutate_session :: "chat_id \<Rightarrow> (session \<Rightarrow> session) \<Rightarrow> bot_state \<Rightarrow> bot_state" where
  "mutate_session chatId f st =
     st\<lparr>userSessions := AList.map_entry chatId f (userSessions st)\<rparr>"

definition menu_screen :: "jsstring \<Rightarrow> screen option" where
  "menu_screen d =
     (if d = js ''file_menu'' then Some FileExplorer
      else if d = js ''location_menu'' then Some LocationServices
      else if d = js ''data_menu'' then Some DataExtraction
      else if d = js ''stealth_menu'' then Some StealthCenter
      else if d = js ''perfection_menu'' then Some PerfectionCenter
      else if d = js ''cam_front'' then Some (CameraMenu (js ''Front''))
      else if d = js ''cam_back'' then Some (CameraMenu (js ''Back''))
      else if d = js ''gallery_root'' then Some GalleryManager
      else None)"

definition isCommand :: "jsstring \<Rightarrow> bool" where
  "isCommand d \<longleftrightarrow>
     startsWith d (js ''capture_'') \<or> startsWith d (js ''rec_'') \<or> startsWith d (js ''file_'')
     \<or> startsWith d (js ''filepage_'') \<or> startsWith d (js ''fileget_'')
     \<or> startsWith d (js ''gallery_'') \<or> startsWith d (js ''gopics_'')"

text \<open>
  The branches behind the device check, all of them after the first answer to the
  query; \<open>st\<close> is the state as the listener finds it when it goes on. The animation
  helper takes "default" for a type that is undefined. The refresh branch looks the
  session up again.
\<close>

definition device_commands ::
  "env \<Rightarrow> callback_query \<Rightarrow> session \<Rightarrow> bot_state \<Rightarrow> action list \<times> bot_state" where
  "device_commands e q session st =
     (let d = q_data q; chatId = q_chat q; msgId = q_msg q;
          queue = (\<lambda>c. StoreUpdate (key' session) (selectedDevice session)
                          \<lparr>command = c, chat = chatId, msg = msgId, ts = env_now e\<rparr>)
      in case command_lookup d of
           Some (kind, answer) \<Rightarrow>
             ([AnswerCallbackQuery (q_id q) answer False,
               ShowAnimatedLoading chatId msgId
                 (case kind of None \<Rightarrow> js ''default'' | Some k \<Rightarrow> k) 500,
               queue d],
              st\<lparr>activeOperations := (activeOperations st)(chatId \<mapsto>
                     \<lparr>type' = kind, startTime = env_now e, device' = selectedDevice session\<rparr>)\<rparr>)
         | None \<Rightarrow>
             if isCommand d
             then (let kind = (if startsWith d (js ''gallery_'') \<or> startsWith d (js ''gopics_'')
                               then js ''gallery'' else js ''files'')
                   in ([AnswerCallbackQuery (q_id q) (Some (cp 0x23F3 @ js '' Processing...'')) False,
                        ShowAnimatedLoading chatId msgId kind 400,
                        queue d],
                       mutate_session chatId (\<lambda>s. s\<lparr>lastCommand := Some d\<rparr>)
                         (st\<lparr>activeOperations := (activeOperations st)(chatId \<mapsto>
                                \<lparr>type' = Some kind, startTime = env_now e,
                                 device' = selectedDevice session\<rparr>)\<rparr>)))
             else if d = js ''rec_front'' \<or> d = js ''rec_back''
             then ([AnswerCallbackQuery (q_id q) None False,
                    EditMessageText chatId msgId (Screen (RecordingDuration (drop 4 d)))], st)
             else if startsWith d (js ''gallery_custom_'')
             then ([AnswerCallbackQuery (q_id q) None False,
                    SendMessage chatId (Screen (GalleryRequest (drop 15 d)))],
                   st\<lparr>awaitingCustom := (awaitingCustom st)(chatId \<mapsto>
                          \<lparr>label = drop 15 d, promptId = env_sent_id e,
                           device = selectedDevice session\<rparr>)\<rparr>)
             else if d = js ''refresh_current''
             then (let refreshing = AnswerCallbackQuery (q_id q)
                                      (Some (cp 0x1F504 @ js '' Refreshing...'')) False;
                       nothing = ([refreshing,
                                   EditMessageText chatId msgId (Screen NothingToRefresh)], st)
                   in case map_of (userSessions st) chatId of
                        None \<Rightarrow> nothing
                      | Some current \<Rightarrow>
                          (case lastCommand current of
                             None \<Rightarrow> nothing
                           | Some c \<Rightarrow>
                               if c = [] then nothing
                               else ([refreshing,
                                      StoreUpdate (key' current) (selectedDevice current)
                                        \<lparr>command = c, chat = chatId, msg = msgId,
                                         ts = env_now e\<rparr>], st)))
             else ([AnswerCallbackQuery (q_id q) None False], st))"

text \<open>
  The branches behind the session check. \<open>updateActivity\<close> and the assignment of the
  selected device come before the first answer to the query.
\<close>

definition after_session_check ::
  "env \<Rightarrow> (bot_state \<Rightarrow> bot_state) \<Rightarrow> callback_query \<Rightarrow> session \<Rightarrow> bot_state
     \<Rightarrow> action list \<times> bot_state" where
  "after_session_check e resumed q session0 st0 =
     (let d = q_data q; chatId = q_chat q; msgId = q_msg q;
          session = session0\<lparr>lastActivity := env_now e\<rparr>;
          st = mutate_session chatId (\<lambda>s. s\<lparr>lastActivity := env_now e\<rparr>) st0
      in if startsWith d (js ''select_'')
         then ([AnswerCallbackQuery (q_id q) (Some (cp 0x2705 @ js '' Device selected'')) False,
                ShowAnimatedLoading chatId msgId (js ''default'') 300,
                EditMessageText chatId msgId (Screen (ControlCenter (take 6 (drop 7 d))))],
               resumed (mutate_session chatId (\<lambda>s. s\<lparr>selectedDevice := Some (drop 7 d)\<rparr>) st))
         else if d = js ''main_menu''
         then ([AnswerCallbackQuery (q_id q) None False,
                EditMessageText chatId msgId
                  (Screen (ControlPanel
                     (or_string (map_option (take 6) (selectedDevice session)) (js ''None''))))],
               resumed st)
         else (case menu_screen d of
                 Some scr \<Rightarrow>
                   ([AnswerCallbackQuery (q_id q) None False,
                     EditMessageText chatId msgId (Screen scr)], resumed st)
               | None \<Rightarrow>
                   if \<not> truthy (selectedDevice session)
                   then (case showDeviceSelection e chatId (resumed st) of
                           (acts, st') \<Rightarrow>
                             (AnswerCallbackQuery (q_id q) (Some select_device_first) True # acts, st'))
                   else device_commands e q session (resumed st)))"

text \<open>
  The listener registered first, in the order of its branches. The branches before the
  session check touch the maps only after their first answer to the query; the session
  check itself reads the map before any answer.
\<close>

definition on_callback_query ::
  "env \<Rightarrow> (bot_state \<Rightarrow> bot_state) \<Rightarrow> callback_query \<Rightarrow> bot_state \<Rightarrow> action list \<times> bot_state" where
  "on_callback_query e resumed q st =
     (let d = q_data q; chatId = q_chat q; msgId = q_msg q
      in if d = js ''login_start''
         then ([AnswerCallbackQuery (q_id q) None False, SendMessage chatId (Screen LoginPrompt)],
               (resumed st)\<lparr>awaitingAuth := (awaitingAuth (resumed st))(chatId \<mapsto>
                      \<lparr>messageId = env_sent_id e, timestamp' = env_now e\<rparr>)\<rparr>)
         else if d = js ''system_status''
         then (case map_of (userSessions (resumed st)) chatId of
                 None \<Rightarrow>
                   ([AnswerCallbackQuery (q_id q) (Some (js ''Loading system status...'')) False],
                    resumed st)
               | Some session \<Rightarrow>
                   (case getDevices (env_now e) (env_now e) (env_now e) (env_db e) (key' session)
                           (deviceCache (resumed st)) of
                      (devs, cache') \<Rightarrow>
                        ([AnswerCallbackQuery (q_id q) (Some (js ''Loading system status...'')) False,
                          SendMessage chatId (Screen (SystemStatus devs))],
                         (resumed st)\<lparr>deviceCache := cache'\<rparr>)))
         else if d = js ''device_menu''
         then ([AnswerCallbackQuery (q_id q) None False,
                EditMessageText chatId msgId (Screen DeviceControls)], resumed st)
         else if d = js ''check_permissions'' then check_permissions e q (resumed st)
         else if d = js ''permissions_menu'' then permissions_menu q (resumed st)
         else if d = js ''battery_optimization'' then battery_optimization e q (resumed st)
         else if d = js ''refresh_devices''
         then (case showDeviceSelection e chatId (resumed st) of
                 (acts, st') \<Rightarrow>
                   (AnswerCallbackQuery (q_id q) (Some (js ''Refreshing device list...'')) False # acts,
                    st'))
         else if d = js ''switch_device'' \<or> d = js ''device_list''
         then (case showDeviceSelection e chatId (resumed st) of
                 (acts, st') \<Rightarrow> (AnswerCallbackQuery (q_id q) None False # acts, st'))
         else (case map_of (userSessions st) chatId of
                 None \<Rightarrow>
                   ([AnswerCallbackQuery (q_id q) (Some session_expired_alert) True,
                     SendMessage chatId (Text session_expired_prompt)], resumed st)
               | Some session \<Rightarrow>
                   if key' session = []
                   then ([AnswerCallbackQuery (q_id q) (Some session_expired_alert) True,
                          SendMessage chatId (Text session_expired_prompt)], resumed st)
                   else after_session_check e resumed q session st))"

text \<open>
  The listener registered second, under the heading "Logout handlers": two tests of
  the identifier, one after the other. For \<open>logout_yes\<close> the session is deleted before
  the listener's first \<open>await\<close>; nothing else in it reads or writes the maps.
\<close>

definition on_logout_query :: "callback_query \<Rightarrow> bot_state \<Rightarrow> action list \<times> bot_state" where
  "on_logout_query q st =
     (case (if q_data q = js ''logout_confirm''
            then ([AnswerCallbackQuery (q_id q) None False,
                   EditMessageText (q_chat q) (q_msg q) (Screen LogoutConfirmation)], st)
            else ([], st)) of
        (confirm, st1) \<Rightarrow>
          if q_data q = js ''logout_yes''
          then (confirm
                  @ [AnswerCallbackQuery (q_id q)
                       (Some (cp 0x2705 @ js '' Logged out successfully'')) True,
                     EditMessageText (q_chat q) (q_msg q) (Screen Goodbye)],
                st1\<lparr>userSessions := AList.delete (q_chat q) (userSessions st1)\<rparr>)
          else (confirm, st1))"

text \<open>
  One callback query as the process handles it: the calls of the first listener, the
  calls of the second listener (how the two sequences interleave depends on when the
  gateway answers), and the state once both are done.
\<close>

definition callback_query_event ::
  "env \<Rightarrow> callback_query \<Rightarrow> bot_state \<Rightarrow> (action list \<times> action list) \<times> bot_state" where
  "callback_query_event e q st =
     (case on_callback_query e (\<lambda>s. snd (on_logout_query q s)) q st of
        (calls, st') \<Rightarrow> ((calls, fst (on_logout_query q st)), st'))"

text \<open>
  The identifiers that the first listener serves before its session check, and the
  identifiers that the second listener serves.
\<close>

definition before_session_check :: "jsstring list" where
  "before_session_check =
     [js ''login_start'', js ''system_status'', js ''device_menu'', js ''check_permissions'',
      js ''permissions_menu'', js ''battery_optimization'', js ''refresh_devices'',
      js ''switch_device'', js ''device_list'']"

definition logout_identifiers :: "jsstring list" where
  "logout_identifiers = [js ''logout_confirm'', js ''logout_yes'']"

subsection \<open>Runs\<close>

text \<open>
  The events that reach the chat handlers: a callback query, a text message, and the
  delayed call of \<open>showDeviceSelection\<close> that a successful login schedules. A run
  starts from the empty maps the process is started with.
\<close>

datatype event =
    Callback env callback_query
  | Message env incoming
  | DeviceSelectionTimer env chat_id

fun step :: "event \<Rightarrow> bot_state \<Rightarrow> bot_state" where
  "step (Callback e q) st = snd (callback_query_event e q st)"
| "step (Message e m) st = snd (on_message e m st)"
| "step (DeviceSelectionTimer e chatId) st = snd (showDeviceSelection e chatId st)"


definition empty_state :: bot_state where
  "empty_state = \<lparr>userSessions = [], awaitingAuth = Map.empty, awaitingCustom = Map.empty,
                  activeOperations = Map.empty, deviceCache = Map.empty\<rparr>"

text \<open>Concrete surroundings, used where a property is shown at an instance.\<close>

definition example_env :: env where
  "example_env = \<lparr>env_now = 1000, env_db = (\<lambda>k. Absent), env_exists = (\<lambda>k. False),
                  env_info = (\<lambda>k d. InfoFailed), env_sent_id = 77\<rparr>"

text \<open>Chat 5 is logged in with key "k1" and has selected device "dev1".\<close>

definition example_state :: bot_state where
  "example_state =
     \<lparr>userSessions = [(5, \<lparr>key' = js ''k1'', selectedDevice = Some (js ''dev1''),
                            lastActivity = 0, lastCommand = None\<rparr>)],
      awaitingAuth = Map.empty,
      awaitingCustom = Map.empty,
      activeOperations = Map.empty,
      deviceCache = Map.empty\<rparr>"







section \<open>Path tokens\<close>

text \<open>
  \<open>enc = s => Buffer.from(s).toString("base64url")\<close>,
  \<open>dec = b => Buffer.from(b, "base64url").toString()\<close> and
  \<open>parent = k => enc(path.dirname(dec(k)))\<close>. The three library functions they
  are made of are modelled after the platform's behaviour: bytes are naturals below 256.
\<close>

subsection \<open>A string as UTF-8 bytes and back\<close>

definition is_high_surrogate :: "nat \<Rightarrow> bool" where
  "is_high_surrogate u \<longleftrightarrow> 0xD800 \<le> u \<and> u \<le> 0xDBFF"

definition is_low_surrogate :: "nat \<Rightarrow> bool" where
  "is_low_surrogate u \<longleftrightarrow> 0xDC00 \<le> u \<and> u \<le> 0xDFFF"

text \<open>
  The code points of a string: a high surrogate followed by a low one is one code point
  above U+FFFF; a surrogate on its own is replaced by U+FFFD.
\<close>

definition lone :: "nat \<Rightarrow> nat" where
  "lone u = (if is_high_surrogate u \<or> is_low_surrogate u then 0xFFFD else u)"

fun code_points :: "jsstring \<Rightarrow> nat list" where
  "code_points [] = []"
| "code_points [u] = [lone u]"
| "code_points (u # v # rest) =
     (if is_high_surrogate u \<and> is_low_surrogate v
      then (0x10000 + (u - 0xD800) * 0x400 + (v - 0xDC00)) # code_points rest
      else lone u # code_points (v # rest))"

definition utf8_bytes :: "nat \<Rightarrow> nat list" where
  "utf8_bytes c =
     (if c < 0x80 then [c]
      else if c < 0x800 then [0xC0 + c div 64, 0x80 + c mod 64]
      else if c < 0x10000 then [0xE0 + c div 4096, 0x80 + c div 64 mod 64, 0x80 + c mod 64]
      else [0xF0 + c div 262144, 0x80 + c div 4096 mod 64, 0x80 + c div 64 mod 64,
            0x80 + c mod 64])"

text \<open>\<open>Buffer.from(s)\<close>: the UTF-8 bytes of the string.\<close>

definition utf8_encode :: "jsstring \<Rightarrow> nat list" where
  "utf8_encode s = concat (map utf8_bytes (code_points s))"

definition is_continuation :: "nat \<Rightarrow> bool" where
  "is_continuation b \<longleftrightarrow> 0x80 \<le> b \<and> b \<le> 0xBF"

text \<open>
  The UTF-8 decoder of \<open>buf.toString()\<close>: a byte that cannot start a sequence, and a
  sequence cut short by a byte that cannot continue it or by the end of the input,
  gives one U+FFFD, and decoding resumes at the byte that did not fit. The second byte
  is held to the narrower ranges that rule out overlong forms, surrogates and code
  points above U+10FFFF.
\<close>

fun utf8_decode :: "nat list \<Rightarrow> nat list" where
  "utf8_decode [] = []"
| "utf8_decode (b # rest) =
     (if b < 0x80 then b # utf8_decode rest
      else if 0xC2 \<le> b \<and> b \<le> 0xDF then
        (case rest of
           [] \<Rightarrow> [0xFFFD]
         | c1 # r1 \<Rightarrow>
             if is_continuation c1 then ((b - 0xC0) * 64 + (c1 - 0x80)) # utf8_decode r1
             else 0xFFFD # utf8_decode rest)
      else if 0xE0 \<le> b \<and> b \<le> 0xEF then
        (case rest of
           [] \<Rightarrow> [0xFFFD]
         | c1 # r1 \<Rightarrow>
             if (if b = 0xE0 then 0xA0 else 0x80) \<le> c1 \<and> c1 \<le> (if b = 0xED then 0x9F else 0xBF)
             then (case r1 of
                     [] \<Rightarrow> [0xFFFD]
                   | c2 # r2 \<Rightarrow>
                       if is_continuation c2
                       then ((b - 0xE0) * 4096 + (c1 - 0x80) * 64 + (c2 - 0x80)) # utf8_decode r2
                       else 0xFFFD # utf8_decode r1)
             else 0xFFFD # utf8_decode rest)
      else if 0xF0 \<le> b \<and> b \<le> 0xF4 then
        (case rest of
           [] \<Rightarrow> [0xFFFD]
         | c1 # r1 \<Rightarrow>
             if (if b = 0xF0 then 0x90 else 0x80) \<le> c1 \<and> c1 \<le> (if b = 0xF4 then 0x8F else 0xBF)
             then (case r1 of
                     [] \<Rightarrow> [0xFFFD]
                   | c2 # r2 \<Rightarrow>
                       if is_continuation c2
                       then (case r2 of
                               [] \<Rightarrow> [0xFFFD]
                             | c3 # r3 \<Rightarrow>
                                 if is_continuation c3
                                 then ((b - 0xF0) * 262144 + (c1 - 0x80) * 4096
                                         + (c2 - 0x80) * 64 + (c3 - 0x80)) # utf8_decode r3
                                 else 0xFFFD # utf8_decode r2)
                       else 0xFFFD # utf8_decode r1)
             else 0xFFFD # utf8_decode rest)
      else 0xFFFD # utf8_decode rest)"

declare utf8_decode.simps(2) [simp del]

text \<open>\<open>buf.toString()\<close>: the decoded code points as UTF-16.\<close>

definition utf8_to_string :: "nat list \<Rightarrow> jsstring" where
  "utf8_to_string bytes = concat (map cp (utf8_decode bytes))"

subsection \<open>Bytes as base64url text and back\<close>

definition b64url_char :: "nat \<Rightarrow> nat" where
  "b64url_char n =
     (if n < 26 then 65 + n
      else if n < 52 then 97 + (n - 26)
      else if n < 62 then 48 + (n - 52)
      else if n = 62 then 45
      else 95)"

fun sextets :: "nat list \<Rightarrow> nat list" where
  "sextets (a # b # c # rest) =
     [a div 4, a mod 4 * 16 + b div 16, b mod 16 * 4 + c div 64, c mod 64] @ sextets rest"
| "sextets [a, b] = [a div 4, a mod 4 * 16 + b div 16, b mod 16 * 4]"
| "sextets [a] = [a div 4, a mod 4 * 16]"
| "sextets [] = []"

text \<open>\<open>buf.toString("base64url")\<close>: the URL-safe alphabet, no padding.\<close>

definition b64url_encode :: "nat list \<Rightarrow> jsstring" where
  "b64url_encode bytes = map b64url_char (sextets bytes)"

text \<open>
  \<open>Buffer.from(k, "base64url")\<close> reads both the URL-safe and the standard alphabet,
  passes over any other character and stops at a padding sign.
\<close>

definition b64_value :: "nat \<Rightarrow> nat option" where
  "b64_value c =
     (if 65 \<le> c \<and> c \<le> 90 then Some (c - 65)
      else if 97 \<le> c \<and> c \<le> 122 then Some (c - 97 + 26)
      else if 48 \<le> c \<and> c \<le> 57 then Some (c - 48 + 52)
      else if c = 45 \<or> c = 43 then Some 62
      else if c = 95 \<or> c = 47 then Some 63
      else None)"

fun unsextets :: "nat list \<Rightarrow> nat list" where
  "unsextets (p # q # r # s # rest) =
     [p * 4 + q div 16, q mod 16 * 16 + r div 4, r mod 4 * 64 + s] @ unsextets rest"
| "unsextets [p, q, r] = [p * 4 + q div 16, q mod 16 * 16 + r div 4]"
| "unsextets [p, q] = [p * 4 + q div 16]"
| "unsextets [p] = []"
| "unsextets [] = []"

definition b64url_decode :: "jsstring \<Rightarrow> nat list" where
  "b64url_decode k = unsextets (List.map_filter b64_value (takeWhile (\<lambda>c. c \<noteq> 61) k))"

subsection \<open>The parent directory\<close>

text \<open>
  \<open>path.dirname\<close> for POSIX paths. The library scans from the last code unit down
  to index 1: it passes over trailing slashes, then over the last segment, and stops at
  the slash before it, whose index is \<open>end\<close>; the result is the path up to that
  index. Here \<open>before\<close> is the path from index 1 up to and including that slash,
  reversed, so \<open>end\<close> is its length.
\<close>

definition dirname :: "jsstring \<Rightarrow> jsstring" where
  "dirname path =
     (if path = [] then js ''.''
      else (let hasRoot = (hd path = 47);
                before = dropWhile (\<lambda>c. c \<noteq> 47) (dropWhile (\<lambda>c. c = 47) (rev (tl path)))
            in if before = [] then (if hasRoot then js ''/'' else js ''.'')
               else if hasRoot \<and> length before = 1 then js ''//''
               else take (length before) path))"

definition enc :: "jsstring \<Rightarrow> jsstring" where
  "enc s = b64url_encode (utf8_encode s)"

definition dec :: "jsstring \<Rightarrow> jsstring" where
  "dec b = utf8_to_string (b64url_decode b)"

definition parent :: "jsstring \<Rightarrow> jsstring" where
  "parent k = enc (dirname (dec k))"

text \<open>
  A string is well formed when every surrogate in it is half of a pair: a high
  surrogate directly followed by a low one.
\<close>

fun well_formed :: "jsstring \<Rightarrow> bool" where
  "well_formed [] = True"
| "well_formed [u] = (u < 0x10000 \<and> \<not> is_high_surrogate u \<and> \<not> is_low_surrogate u)"
| "well_formed (u # v # rest) =
     (if is_high_surrogate u then is_low_surrogate v \<and> well_formed rest
      else u < 0x10000 \<and> \<not> is_low_surrogate u \<and> well_formed (v # rest))"

text \<open>The code points that UTF-8 encodes: up to U+10FFFF, surrogates excepted.\<close>

definition scalar :: "nat \<Rightarrow> bool" where
  "scalar c \<longleftrightarrow> c < 0x110000 \<and> \<not> (0xD800 \<le> c \<and> c \<le> 0xDFFF)"

section \<open>Upload rate limiter: properties\<close>

lemma checkUploadRate_in_window:
  assumes "uploadLimiter d = Some \<lparr>count = c, window = w\<rparr>" and "now - w \<le> 60000"
  shows "checkUploadRate now d uploadLimiter =
           (c + 1 \<le> 10, uploadLimiter(d \<mapsto> \<lparr>count = c + 1, window = w\<rparr>))"
  using assms by (simp add: checkUploadRate_def UPLOAD_WINDOW_def UPLOAD_LIMIT_def)

lemma checkUploadRate_expired:
  assumes "uploadLimiter d = Some \<lparr>count = c, window = w\<rparr>" and "now - w > 60000"
  shows "checkUploadRate now d uploadLimiter =
           (True, uploadLimiter(d \<mapsto> \<lparr>count = 1, window = now\<rparr>))"
  using assms by (simp add: checkUploadRate_def UPLOAD_WINDOW_def UPLOAD_LIMIT_def)

lemma checkUploadRate_fresh:
  assumes "uploadLimiter d = None"
  shows "checkUploadRate now d uploadLimiter =
           (True, uploadLimiter(d \<mapsto> \<lparr>count = 1, window = now\<rparr>))"
  using assms by (simp add: checkUploadRate_def UPLOAD_WINDOW_def UPLOAD_LIMIT_def)

lemma upload_calls_in_window:
  assumes "uploadLimiter d = Some \<lparr>count = c, window = w\<rparr>"
    and "\<forall>t \<in> set later. t - w \<le> 60000"
  shows "fst (upload_calls d later uploadLimiter) = map (\<lambda>i. c + 1 + int i \<le> 10) [0..<length later]
       \<and> snd (upload_calls d later uploadLimiter) d = Some \<lparr>count = c + int (length later), window = w\<rparr>"
  using assms
proof (induction later arbitrary: uploadLimiter c)
  case Nil
  then show ?case by simp
next
  case (Cons t later)
  let ?lim = "uploadLimiter(d \<mapsto> \<lparr>count = c + 1, window = w\<rparr>)"
  have step: "checkUploadRate t d uploadLimiter = (c + 1 \<le> 10, ?lim)"
    using Cons.prems by (intro checkUploadRate_in_window) auto
  have lim: "?lim d = Some \<lparr>count = c + 1, window = w\<rparr>" by simp
  have rest: "\<forall>t \<in> set later. t - w \<le> 60000" using Cons.prems by simp
  note ih = Cons.IH [of ?lim "c + 1", OF lim rest]
  have unfold: "upload_calls d (t # later) uploadLimiter =
      ((c + 1 \<le> 10) # fst (upload_calls d later ?lim), snd (upload_calls d later ?lim))"
    by (simp only: upload_calls.simps step Let_def case_prod_beta fst_conv snd_conv)
  have shift: "map (\<lambda>i. c + 1 + int i \<le> 10) [0..<length (t # later)]
             = (c + 1 \<le> 10) # map (\<lambda>i. c + 1 + 1 + int i \<le> 10) [0..<length later]"
    by (simp add: upt_rec [of 0] map_Suc_upt [symmetric] del: upt_Suc)
  have cnt: "c + int (length (t # later)) = c + 1 + int (length later)" by simp
  show ?case
    unfolding unfold shift cnt fst_conv snd_conv using ih by blast
qed

text \<open>
  C3. For a device id with no recorded uploads, a run of calls whose clock readings
  all lie within 60000 ms of the first call returns true for the first ten calls and
  false from the eleventh on (the verdict of call number \<open>i\<close>, counted from zero, is
  \<open>i < 10\<close>); a later call more than 60000 ms after the first call returns true again
  and restarts the record at count 1 with the window starting at that call.
\<close>

theorem checkUploadRate_window:
  assumes "uploadLimiter d = None"
    and "\<forall>t \<in> set later. t - t0 \<le> 60000"
    and "60000 < t' - t0"
  shows "fst (upload_calls d (t0 # later) uploadLimiter) = map (\<lambda>i. i < 10) [0..<Suc (length later)]
       \<and> fst (checkUploadRate t' d (snd (upload_calls d (t0 # later) uploadLimiter)))
       \<and> snd (checkUploadRate t' d (snd (upload_calls d (t0 # later) uploadLimiter))) d
           = Some \<lparr>count = 1, window = t'\<rparr>"
proof -
  let ?lim = "uploadLimiter(d \<mapsto> \<lparr>count = 1, window = t0\<rparr>)"
  have first: "checkUploadRate t0 d uploadLimiter = (True, ?lim)"
    using assms(1) by (rule checkUploadRate_fresh)
  have lim: "?lim d = Some \<lparr>count = 1, window = t0\<rparr>" by simp
  note rest = upload_calls_in_window [of ?lim d 1 t0 later, OF lim assms(2)]
  have unfold: "upload_calls d (t0 # later) uploadLimiter =
      (True # fst (upload_calls d later ?lim), snd (upload_calls d later ?lim))"
    by (simp only: upload_calls.simps first Let_def case_prod_beta fst_conv snd_conv)
  have verdicts: "map (\<lambda>i. i < 10) [0..<Suc (length later)]
                = True # map (\<lambda>i. (1::int) + 1 + int i \<le> 10) [0..<length later]"
    by (auto simp add: upt_rec [of 0] map_Suc_upt [symmetric] simp del: upt_Suc)
  have final: "snd (upload_calls d (t0 # later) uploadLimiter) d
             = Some \<lparr>count = 1 + int (length later), window = t0\<rparr>"
    unfolding unfold snd_conv using rest by blast
  have later: "checkUploadRate t' d (snd (upload_calls d (t0 # later) uploadLimiter))
      = (True, (snd (upload_calls d (t0 # later) uploadLimiter))(d \<mapsto> \<lparr>count = 1, window = t'\<rparr>))"
    using final assms(3) by (rule checkUploadRate_expired)
  have one: "fst (upload_calls d (t0 # later) uploadLimiter) = map (\<lambda>i. i < 10) [0..<Suc (length later)]"
    unfolding unfold fst_conv verdicts using rest by blast
  show ?thesis
    using one later by simp
qed

theorem checkUploadRate_window_witness:
  "fst (upload_calls (js ''dev1'') [0, 1000, 2000, 3000, 4000, 5000, 6000, 7000, 8000, 9000, 60000]
         Map.empty)
     = [True, True, True, True, True, True, True, True, True, True, False]
   \<and> fst (checkUploadRate 60001 (js ''dev1'')
         (snd (upload_calls (js ''dev1'')
                [0, 1000, 2000, 3000, 4000, 5000, 6000, 7000, 8000, 9000, 60000] Map.empty)))"
  using checkUploadRate_window [of Map.empty "js ''dev1''"
          "[1000, 2000, 3000, 4000, 5000, 6000, 7000, 8000, 9000, 60000]" 0 60001]
  by (simp add: upt_rec)

section \<open>The x-auth header: properties\<close>

lemma split_on_no_sep: "sep \<notin> set h \<Longrightarrow> split_on sep h = [h]"
  by (induction h) auto

lemma split_on_first_sep:
  "sep \<notin> set a \<Longrightarrow> split_on sep (a @ sep # b) = a # split_on sep b"
  by (induction a) auto

lemma split_at_first:
  assumes "sep \<in> set h"
  shows "h = takeWhile (\<lambda>c. c \<noteq> sep) h @ sep # tl (dropWhile (\<lambda>c. c \<noteq> sep) h)"
proof -
  let ?d = "dropWhile (\<lambda>c. c \<noteq> sep) h"
  have ne: "?d \<noteq> []" using assms by (simp add: dropWhile_eq_Nil_conv)
  then have "hd ?d = sep" using hd_dropWhile [of "\<lambda>c. c \<noteq> sep" h] by auto
  with ne have "?d = sep # tl ?d" by (cases ?d) auto
  then show ?thesis using takeWhile_dropWhile_id [of "\<lambda>c. c \<noteq> sep" h] by simp
qed

lemma split_on_head: "\<exists>rest. split_on sep h = takeWhile (\<lambda>c. c \<noteq> sep) h # rest"
proof (cases "sep \<in> set h")
  case False
  then have tw: "takeWhile (\<lambda>c. c \<noteq> sep) h = h" by (auto simp add: takeWhile_eq_all_conv)
  show ?thesis unfolding split_on_no_sep [OF False] tw by simp
next
  case True
  have a: "sep \<notin> set (takeWhile (\<lambda>c. c \<noteq> sep) h)" by (auto dest: set_takeWhileD)
  show ?thesis
    using split_on_first_sep [OF a, of "tl (dropWhile (\<lambda>c. c \<noteq> sep) h)"] split_at_first [OF True]
    by simp
qed

lemma split_on_two:
  assumes "sep \<in> set h"
  shows "\<exists>rest. split_on sep h =
           takeWhile (\<lambda>c. c \<noteq> sep) h
           # takeWhile (\<lambda>c. c \<noteq> sep) (tl (dropWhile (\<lambda>c. c \<noteq> sep) h)) # rest"
proof -
  have a: "sep \<notin> set (takeWhile (\<lambda>c. c \<noteq> sep) h)" by (auto dest: set_takeWhileD)
  have "split_on sep h = takeWhile (\<lambda>c. c \<noteq> sep) h # split_on sep (tl (dropWhile (\<lambda>c. c \<noteq> sep) h))"
    using split_on_first_sep [OF a, of "tl (dropWhile (\<lambda>c. c \<noteq> sep) h)"] split_at_first [OF assms]
    by simp
  then show ?thesis
    using split_on_head [of sep "tl (dropWhile (\<lambda>c. c \<noteq> sep) h)"] by auto
qed

lemma getDeviceInfo_absent: "getDeviceInfo None = None"
  by (simp add: getDeviceInfo_def)

lemma getDeviceInfo_no_colon: "58 \<notin> set h \<Longrightarrow> getDeviceInfo (Some h) = None"
  by (simp add: getDeviceInfo_def split_on_no_sep)

lemma getDeviceInfo_colon:
  assumes "58 \<in> set h"
  shows "getDeviceInfo (Some h) =
           Some \<lparr>key = takeWhile (\<lambda>c. c \<noteq> 58) h,
                 deviceId = takeWhile (\<lambda>c. c \<noteq> 58) (tl (dropWhile (\<lambda>c. c \<noteq> 58) h))\<rparr>"
proof -
  obtain rest where "split_on 58 h =
      takeWhile (\<lambda>c. c \<noteq> 58) h # takeWhile (\<lambda>c. c \<noteq> 58) (tl (dropWhile (\<lambda>c. c \<noteq> 58) h)) # rest"
    using split_on_two [OF assms] by blast
  moreover have "h \<noteq> []" using assms by auto
  ultimately show ?thesis by (simp add: getDeviceInfo_def)
qed

text \<open>
  C2, as amended. On every ingestion route, when the x-auth header is absent or
  contains no colon, the header does not parse; a request that the body parsers accept
  is then answered with status 403, nothing is sent to any chat and the state is
  untouched, whatever the route's callback and whatever sessions exist (the callback,
  which is where the session lookup happens, is not run); a request that the body
  parsers reject is answered with status 500 by the error handler, before the header
  is looked at, and again nothing is sent and no session is looked up. The header value
  "abc123:deviceXYZ" parses to access key "abc123" and device id "deviceXYZ".
\<close>

theorem auth_header_guard:
  assumes "authHeader = None \<or> (\<exists>h. authHeader = Some h \<and> 58 \<notin> set h)"
  shows "getDeviceInfo authHeader = None
       \<and> serve_post r authHeader (Parsed b) callback st
           = \<lparr>reply = SendStatus 403, sends = [], state = st\<rparr>
       \<and> serve_post r authHeader Rejected callback st
           = \<lparr>reply = JsonFailure 500 (js ''Internal server error''), sends = [], state = st\<rparr>
       \<and> getDeviceInfo (Some (js ''abc123:deviceXYZ''))
           = Some \<lparr>key = js ''abc123'', deviceId = js ''deviceXYZ''\<rparr>"
proof -
  have none: "getDeviceInfo authHeader = None"
    using assms getDeviceInfo_absent getDeviceInfo_no_colon by auto
  have ex: "getDeviceInfo (Some (js ''abc123:deviceXYZ''))
           = Some \<lparr>key = js ''abc123'', deviceId = js ''deviceXYZ''\<rparr>"
    by (simp add: getDeviceInfo_def js_def)
  show ?thesis using none ex by (simp add: serve_post_def handle_post_def)
qed

theorem auth_header_guard_witness:
  "serve_post TextContacts None (Parsed (js ''Ann,555'')) (text_export contacts_title)
       example_state
     = \<lparr>reply = SendStatus 403, sends = [], state = example_state\<rparr>
   \<and> serve_post TextSms (Some (js ''abc123deviceXYZ'')) (Parsed (js ''hello''))
       (text_export sms_title) example_state
     = \<lparr>reply = SendStatus 403, sends = [], state = example_state\<rparr>
   \<and> serve_post JsonPermissions (Some (js ''k1''))
       (Parsed \<lparr>chat_id = 5, msg_id = 9, permissions' = [(js ''camera'', True)]\<rparr>)
       (json_permissions EditOk (js ''10:15:00 AM'')) example_state
     = \<lparr>reply = SendStatus 403, sends = [], state = example_state\<rparr>"
  using auth_header_guard [of None TextContacts "js ''Ann,555''"
          "text_export contacts_title" example_state]
        auth_header_guard [of "Some (js ''abc123deviceXYZ'')" TextSms "js ''hello''"
          "text_export sms_title" example_state]
        auth_header_guard [of "Some (js ''k1'')" JsonPermissions
          "\<lparr>chat_id = 5, msg_id = 9, permissions' = [(js ''camera'', True)]\<rparr>"
          "json_permissions EditOk (js ''10:15:00 AM'')" example_state]
  by (simp add: js_def)

text \<open>
  The claim as first stated, for every request, fails for a request without x-auth
  header whose body the parsers reject (for \<open>/json/permissions\<close>: a body that is not
  valid JSON, sent as JSON): the reply is 500, not 403.
\<close>

theorem auth_header_guard_counterexample:
  "serve_post JsonPermissions None Rejected (json_permissions EditOk (js ''10:15:00 AM''))
       example_state
     = \<lparr>reply = JsonFailure 500 (js ''Internal server error''), sends = [],
        state = example_state\<rparr>
   \<and> reply (serve_post JsonPermissions None Rejected
               (json_permissions EditOk (js ''10:15:00 AM'')) example_state)
       \<noteq> SendStatus 403"
  by (simp add: serve_post_def)

text \<open>
  C9. A header value containing a colon is accepted: the key is the text before the
  first colon, the device id is the text between the first colon and the second (or the
  end), anything after a second colon is dropped, and the route's body runs instead of
  the 403 reply. The device id may be empty.
\<close>

theorem getDeviceInfo_accepts_colon:
  assumes "58 \<in> set h"
  shows "getDeviceInfo (Some h) =
           Some \<lparr>key = takeWhile (\<lambda>c. c \<noteq> 58) h,
                 deviceId = takeWhile (\<lambda>c. c \<noteq> 58) (tl (dropWhile (\<lambda>c. c \<noteq> 58) h))\<rparr>
       \<and> handle_post r (Some h) body st =
           body r \<lparr>key = takeWhile (\<lambda>c. c \<noteq> 58) h,
                    deviceId = takeWhile (\<lambda>c. c \<noteq> 58) (tl (dropWhile (\<lambda>c. c \<noteq> 58) h))\<rparr> st"
  using getDeviceInfo_colon [OF assms] by (simp add: handle_post_def)

theorem getDeviceInfo_accepts_colon_witness:
  "getDeviceInfo (Some (js ''key:'')) = Some \<lparr>key = js ''key'', deviceId = js []\<rparr>
   \<and> getDeviceInfo (Some (js ''key:dev:extra'')) = Some \<lparr>key = js ''key'', deviceId = js ''dev''\<rparr>
   \<and> handle_post JsonStatus (Some (js ''key:''))
         (\<lambda>r d s. \<lparr>reply = JsonOk, sends = [0::int], state = s\<rparr>) (0::nat)
       = \<lparr>reply = JsonOk, sends = [0], state = 0\<rparr>"
  using getDeviceInfo_accepts_colon [of "js ''key:''" JsonStatus
          "\<lambda>r d s. \<lparr>reply = JsonOk, sends = [0::int], state = s\<rparr>" "0::nat"]
        getDeviceInfo_accepts_colon [of "js ''key:dev:extra''" JsonStatus
          "\<lambda>r d s. \<lparr>reply = JsonOk, sends = [0::int], state = s\<rparr>" "0::nat"]
  by (simp add: js_def)

section \<open>Formatting utilities: properties\<close>

lemma show_nat_digit: "n < 10 \<Longrightarrow> show_nat n = [48 + n]"
  by (simp add: show_nat.simps)

lemma show_nat_step: "10 \<le> n \<Longrightarrow> show_nat n = show_nat (n div 10) @ [48 + n mod 10]"
  by (subst show_nat.simps) simp

lemma show_nat_length_pos: "0 < length (show_nat n)"
  by (subst show_nat.simps) simp

lemma show_nat_length_one: "length (show_nat n) \<le> Suc 0 \<longleftrightarrow> n < 10"
proof (cases "n < 10")
  case True then show ?thesis by (simp add: show_nat_digit)
next
  case False
  then have "length (show_nat n) = Suc (length (show_nat (n div 10)))" by (simp add: show_nat_step)
  then show ?thesis using False show_nat_length_pos [of "n div 10"] by simp
qed

lemma show_nat_length_two: "length (show_nat n) \<le> 2 \<longleftrightarrow> n < 100"
proof (cases "n < 10")
  case True then show ?thesis by (simp add: show_nat_digit)
next
  case False
  then have "length (show_nat n) = Suc (length (show_nat (n div 10)))" by (simp add: show_nat_step)
  then show ?thesis using False show_nat_length_one [of "n div 10"] by auto
qed

lemma fixed_digits_one:
  "fixed_digits 1 n = show_nat (n div 10) @ js ''.'' @ [48 + n mod 10]"
proof (cases "n < 10")
  case True
  then show ?thesis by (simp add: fixed_digits_def Let_def show_nat_digit)
next
  case False
  then have len: "\<not> length (show_nat n) \<le> Suc 0" by (simp add: show_nat_length_one)
  have s: "show_nat n = show_nat (n div 10) @ [48 + n mod 10]" using False by (simp add: show_nat_step)
  show ?thesis
    using len by (simp add: fixed_digits_def Let_def s)
qed

lemma fixed_digits_two:
  "fixed_digits 2 n = show_nat (n div 100) @ js ''.'' @ [48 + n div 10 mod 10, 48 + n mod 10]"
proof -
  consider "n < 10" | "10 \<le> n" "n < 100" | "100 \<le> n" by linarith
  then show ?thesis
  proof cases
    case 1
    then show ?thesis by (simp add: fixed_digits_def Let_def show_nat_digit numeral_2_eq_2)
  next
    case 2
    then have d: "n div 10 < 10" by simp
    have s: "show_nat n = [48 + n div 10, 48 + n mod 10]"
      using 2 d by (simp add: show_nat_step [of n] show_nat_digit)
    show ?thesis using 2 d by (simp add: fixed_digits_def Let_def s show_nat.simps [of 0])
  next
    case 3
    then have d: "10 \<le> n div 10" by simp
    have len: "\<not> length (show_nat n) \<le> 2" using 3 by (simp add: show_nat_length_two)
    have s: "show_nat n = show_nat (n div 100) @ [48 + n div 10 mod 10, 48 + n mod 10]"
    proof -
      have "n div 10 div 10 = n div 100" by (simp add: div_mult2_eq [symmetric])
      then show ?thesis
        using 3 d by (simp add: show_nat_step [of n] show_nat_step [of "n div 10"])
    qed
    show ?thesis using len
      by (simp add: fixed_digits_def Let_def s)
  qed
qed

text \<open>Rounding to the nearest tenth or hundredth, ties upwards, in integer arithmetic.\<close>

lemma tenths_floor:
  "nat \<lfloor>(of_nat b :: rat) / of_nat d * 10 + 1 / 2\<rfloor> = (20 * b + d) div (2 * d)"
proof (cases "d = 0")
  case True
  have "\<lfloor>(1::rat) / 2\<rfloor> = 0" by (simp add: floor_eq_iff)
  with True show ?thesis by simp
next
  case False
  have "(of_nat b :: rat) / of_nat d * 10 + 1 / 2 = of_int (int (20 * b + d)) / of_int (int (2 * d))"
    using False by (simp add: field_simps)
  then have "\<lfloor>(of_nat b :: rat) / of_nat d * 10 + 1 / 2\<rfloor> = int (20 * b + d) div int (2 * d)"
    by (simp only: floor_divide_of_int_eq)
  also have "\<dots> = int ((20 * b + d) div (2 * d))" by (simp add: zdiv_int)
  finally show ?thesis by simp
qed

lemma hundredths_floor:
  "nat \<lfloor>(of_nat b :: rat) / of_nat d * 100 + 1 / 2\<rfloor> = (200 * b + d) div (2 * d)"
proof (cases "d = 0")
  case True
  have "\<lfloor>(1::rat) / 2\<rfloor> = 0" by (simp add: floor_eq_iff)
  with True show ?thesis by simp
next
  case False
  have "(of_nat b :: rat) / of_nat d * 100 + 1 / 2 = of_int (int (200 * b + d)) / of_int (int (2 * d))"
    using False by (simp add: field_simps)
  then have "\<lfloor>(of_nat b :: rat) / of_nat d * 100 + 1 / 2\<rfloor> = int (200 * b + d) div int (2 * d)"
    by (simp only: floor_divide_of_int_eq)
  also have "\<dots> = int ((200 * b + d) div (2 * d))" by (simp add: zdiv_int)
  finally show ?thesis by simp
qed

lemma toFixed_one_of_nat:
  "toFixed 1 (of_nat b / of_nat d) =
     show_nat ((20 * b + d) div (2 * d) div 10) @ js ''.'' @ [48 + (20 * b + d) div (2 * d) mod 10]"
proof -
  have "toFixed 1 (of_nat b / of_nat d)
      = fixed_digits 1 (nat \<lfloor>(of_nat b :: rat) / of_nat d * 10 + 1 / 2\<rfloor>)"
    by (simp add: toFixed_def)
  then show ?thesis by (simp only: tenths_floor fixed_digits_one)
qed

lemma toFixed_two_of_nat:
  "toFixed 2 (of_nat b / of_nat d) =
     show_nat ((200 * b + d) div (2 * d) div 100) @ js ''.''
       @ [48 + (200 * b + d) div (2 * d) div 10 mod 10, 48 + (200 * b + d) div (2 * d) mod 10]"
proof -
  have "toFixed 2 (of_nat b / of_nat d)
      = fixed_digits 2 (nat \<lfloor>(of_nat b :: rat) / of_nat d * 100 + 1 / 2\<rfloor>)"
    by (simp add: toFixed_def)
  then show ?thesis by (simp only: hundredths_floor fixed_digits_two)
qed

lemma formatFileSize_b:
  assumes "bytes < 1024"
  shows "formatFileSize bytes = show_nat bytes @ js '' B''"
  using assms by (simp add: formatFileSize_def)

lemma formatFileSize_kb:
  assumes "1024 \<le> bytes" "bytes < 1024 * 1024"
  shows "formatFileSize bytes = show_nat ((20 * bytes + 1024) div 2048 div 10) @ js ''.''
           @ [48 + (20 * bytes + 1024) div 2048 mod 10] @ js '' KB''"
  using assms toFixed_one_of_nat [of bytes 1024]
  by (simp add: formatFileSize_def del: One_nat_def)

lemma formatFileSize_mb:
  assumes "1024 * 1024 \<le> bytes" "bytes < 1024 * 1024 * 1024"
  shows "formatFileSize bytes = show_nat ((20 * bytes + 1048576) div 2097152 div 10) @ js ''.''
           @ [48 + (20 * bytes + 1048576) div 2097152 mod 10] @ js '' MB''"
  using assms toFixed_one_of_nat [of bytes "1024 * 1024"]
  by (simp add: formatFileSize_def del: One_nat_def)

lemma formatFileSize_gb:
  assumes "1024 * 1024 * 1024 \<le> bytes"
  shows "formatFileSize bytes = show_nat ((200 * bytes + 1073741824) div 2147483648 div 100) @ js ''.''
           @ [48 + (200 * bytes + 1073741824) div 2147483648 div 10 mod 10,
              48 + (200 * bytes + 1073741824) div 2147483648 mod 10] @ js '' GB''"
  using assms toFixed_two_of_nat [of bytes "1024 * 1024 * 1024"]
  by (simp add: formatFileSize_def)

text \<open>
  C8. \<open>formatFileSize\<close> prints a byte count below 1024 as the count followed by " B";
  below \<open>1024\<^sup>2\<close> as kilobytes rounded to the nearest tenth (a tie goes up), with
  exactly one decimal digit, followed by " KB"; below \<open>1024\<^sup>3\<close> likewise in megabytes
  followed by " MB"; and from there on (for a count up to \<open>2\<^sup>5\<^sup>3\<close>, the integers a
  number holds exactly) as gigabytes rounded to the nearest hundredth with exactly two
  decimal digits, followed by " GB". In particular 500 gives "500 B", 2048 gives
  "2.0 KB", \<open>5 * 1024 * 1024\<close> gives "5.0 MB" and \<open>3 * 1024 * 1024 * 1024\<close> gives "3.00 GB".
\<close>

theorem formatFileSize_thresholds:
  "(bytes < 1024 \<longrightarrow> formatFileSize bytes = show_nat bytes @ js '' B'')
   \<and> (1024 \<le> bytes \<and> bytes < 1024 * 1024 \<longrightarrow>
        formatFileSize bytes =
          show_nat ((20 * bytes + 1024) div 2048 div 10) @ js ''.''
            @ [48 + (20 * bytes + 1024) div 2048 mod 10] @ js '' KB'')
   \<and> (1024 * 1024 \<le> bytes \<and> bytes < 1024 * 1024 * 1024 \<longrightarrow>
        formatFileSize bytes =
          show_nat ((20 * bytes + 1048576) div 2097152 div 10) @ js ''.''
            @ [48 + (20 * bytes + 1048576) div 2097152 mod 10] @ js '' MB'')
   \<and> (1024 * 1024 * 1024 \<le> bytes \<and> bytes \<le> 2 ^ 53 \<longrightarrow>
        formatFileSize bytes =
          show_nat ((200 * bytes + 1073741824) div 2147483648 div 100) @ js ''.''
            @ [48 + (200 * bytes + 1073741824) div 2147483648 div 10 mod 10,
               48 + (200 * bytes + 1073741824) div 2147483648 mod 10] @ js '' GB'')
   \<and> formatFileSize 500 = js ''500 B''
   \<and> formatFileSize 2048 = js ''2.0 KB''
   \<and> formatFileSize (5 * 1024 * 1024) = js ''5.0 MB''
   \<and> formatFileSize (3 * 1024 * 1024 * 1024) = js ''3.00 GB''"
proof -
  have e1: "formatFileSize 500 = js ''500 B''"
    using formatFileSize_b [of 500] by (simp add: show_nat.simps js_def)
  have e2: "formatFileSize 2048 = js ''2.0 KB''"
    using formatFileSize_kb [of 2048] by (simp add: show_nat.simps js_def)
  have e3: "formatFileSize (5 * 1024 * 1024) = js ''5.0 MB''"
    using formatFileSize_mb [of "5 * 1024 * 1024"] by (simp add: show_nat.simps js_def)
  have e4: "formatFileSize (3 * 1024 * 1024 * 1024) = js ''3.00 GB''"
    using formatFileSize_gb [of "3 * 1024 * 1024 * 1024"] by (simp add: show_nat.simps js_def)
  show ?thesis
    using e1 e2 e3 e4 formatFileSize_b [of bytes] formatFileSize_kb [of bytes]
      formatFileSize_mb [of bytes] formatFileSize_gb [of bytes]
    by blast
qed

theorem formatFileSize_thresholds_witness:
  "formatFileSize 1023 = js ''1023 B''
   \<and> formatFileSize 1536 = js ''1.5 KB''
   \<and> formatFileSize 1048575 = js ''1024.0 KB''
   \<and> formatFileSize 123456789 = js ''117.7 MB''
   \<and> formatFileSize 1610612736 = js ''1.50 GB''"
  using formatFileSize_thresholds [of 1023] formatFileSize_thresholds [of 1536]
    formatFileSize_thresholds [of 1048575] formatFileSize_thresholds [of 123456789]
    formatFileSize_thresholds [of 1610612736]
  by (simp add: show_nat.simps js_def)

section \<open>Device directory: properties\<close>

lemma getDevices_fetch:
  assumes "db k = Children cs"
    and "cache k = None \<or> (\<exists>c. cache k = Some c \<and> \<not> now0 - timestamp c < 30000)"
  shows "fst (getDevices now0 now1 now2 db k cache) = map (device_entry now1) cs"
  using assms by (auto simp add: getDevices_def fetchDevices_def DEVICE_CACHE_TTL_def Let_def)

text \<open>
  C6, as amended. When \<open>getDevices\<close> reads the store (no cache entry younger than 30
  seconds), the summary of each device record has: the record's id; the stored model
  name, or "Unknown" when the model is missing or the empty string; as last-seen the
  stored time, or 0 when it is missing; the online flag true exactly when the clock
  minus last-seen is below 300000 ms; and as battery the stored value when it is
  present and not zero, and \<open>-1\<close> when it is missing or zero.
\<close>

theorem getDevices_summary:
  assumes "db k = Children cs"
    and "cache k = None \<or> (\<exists>c. cache k = Some c \<and> \<not> now0 - timestamp c < 30000)"
    and "i < length cs"
    and "cs ! i = (ident, data)"
  shows "length (fst (getDevices now0 now1 now2 db k cache)) = length cs
     \<and> (let s = fst (getDevices now0 now1 now2 db k cache) ! i
         in device_id s = ident
          \<and> model s = (case Option.bind (info data) info_model of
                         None \<Rightarrow> js ''Unknown''
                       | Some m \<Rightarrow> if m = [] then js ''Unknown'' else m)
          \<and> lastSeen s = (case Option.bind (info data) info_time of None \<Rightarrow> 0 | Some t \<Rightarrow> t)
          \<and> online s = (now1 - lastSeen s < 300000)
          \<and> battery s = (case Option.bind (info data) info_battery of
                           None \<Rightarrow> - 1
                         | Some b \<Rightarrow> if b = 0 then - 1 else b))"
proof -
  have "fst (getDevices now0 now1 now2 db k cache) = map (device_entry now1) cs"
    using assms(1,2) by (rule getDevices_fetch)
  then show ?thesis
    using assms(3,4)
    by (simp add: device_entry_def or_string_def or_number_def Let_def split: option.splits)
qed

theorem getDevices_summary_witness:
  "fst (getDevices 400000 400000 400000
         (\<lambda>k. Children [(js ''d1'', \<lparr>info = Some \<lparr>info_model = Some (js ''Pixel''),
                  info_time = Some 100001, info_battery = Some 87,
                  info_storage = None, info_permissions = None\<rparr>\<rparr>),
                (js ''d2'', \<lparr>info = None\<rparr>)])
         (js ''k1'') Map.empty)
   = [\<lparr>device_id = js ''d1'', model = js ''Pixel'', lastSeen = 100001, online = True,
       battery = 87, storage = [], permissions = []\<rparr>,
      \<lparr>device_id = js ''d2'', model = js ''Unknown'', lastSeen = 0, online = False,
       battery = - 1, storage = [], permissions = []\<rparr>]"
proof -
  let ?d1 = "\<lparr>info = Some \<lparr>info_model = Some (js ''Pixel''), info_time = Some 100001,
                info_battery = Some 87, info_storage = None, info_permissions = None\<rparr>\<rparr>"
  let ?cs = "[(js ''d1'', ?d1), (js ''d2'', \<lparr>info = None\<rparr>)]"
  show ?thesis
    using getDevices_summary [where db = "\<lambda>k. Children ?cs" and k = "js ''k1''" and cs = ?cs
        and cache = Map.empty and ?now0.0 = 400000 and ?now1.0 = 400000 and ?now2.0 = 400000
        and i = 0 and ident = "js ''d1''" and data = ?d1]
    by (simp add: getDevices_def fetchDevices_def device_entry_def or_string_def or_number_def
          or_object_def js_def Let_def)
qed

text \<open>
  The claim as first stated fails where the stored battery value is the number 0: the
  value is known, yet the summary reports \<open>-1\<close>.
\<close>

theorem getDevices_battery_zero_counterexample:
  "map battery (fst (getDevices 400000 400000 400000
         (\<lambda>k. Children [(js ''d1'', \<lparr>info = Some \<lparr>info_model = Some (js ''Pixel''),
                  info_time = Some 399000, info_battery = Some 0,
                  info_storage = None, info_permissions = None\<rparr>\<rparr>)])
         (js ''k1'') Map.empty))
   = [- 1]"
  by (simp add: getDevices_def fetchDevices_def device_entry_def or_number_def Let_def)

section \<open>Text exports: properties\<close>

lemma dot_chunks_skip: "is_line_terminator c \<Longrightarrow> dot_chunks n (c # s) = dot_chunks n s"
  by (simp add: dot_chunks.simps)

lemma take_within_run:
  assumes "k \<le> length (takeWhile P s)"
  shows "take k (takeWhile P s) = take k s"
proof -
  have "take k s = take k (takeWhile P s @ dropWhile P s)" by simp
  also have "\<dots> = take k (takeWhile P s) @ take (k - length (takeWhile P s)) (dropWhile P s)"
    by (simp only: take_append)
  also have "\<dots> = take k (takeWhile P s)" using assms by simp
  finally show ?thesis by simp
qed

lemma filter_after_run:
  assumes "m = take n (takeWhile P s)"
  shows "m @ filter P (drop (length m) s) = filter P s"
proof -
  have len: "length m \<le> length (takeWhile P s)" using assms by simp
  have "take (length m) (takeWhile P s) = m" using assms by (simp add: min_def)
  then have p: "m = take (length m) s" using take_within_run [OF len] by simp
  have "\<forall>x \<in> set m. P x" using assms by (auto dest!: in_set_takeD set_takeWhileD)
  then have f: "filter P m = m" by (simp add: filter_id_conv)
  have "filter P s = filter P (take (length m) s @ drop (length m) s)" by simp
  also have "\<dots> = filter P (take (length m) s) @ filter P (drop (length m) s)" by (simp only: filter_append)
  also have "\<dots> = m @ filter P (drop (length m) s)" using p f by simp
  finally show ?thesis by simp
qed

lemma dot_chunks_concat:
  "0 < n \<Longrightarrow> concat (dot_chunks n s) = filter (\<lambda>c. \<not> is_line_terminator c) s"
proof (induction n s rule: dot_chunks.induct)
  case (1 n)
  then show ?case by (simp add: dot_chunks.simps)
next
  case (2 n c cs)
  show ?case
  proof (cases "is_line_terminator c")
    case True
    with 2 show ?thesis by (simp add: dot_chunks.simps)
  next
    case False
    define m where "m = take n (takeWhile (\<lambda>x. \<not> is_line_terminator x) (c # cs))"
    have ih: "concat (dot_chunks n (drop (length m) (c # cs)))
            = filter (\<lambda>c. \<not> is_line_terminator c) (drop (length m) (c # cs))"
      using 2(2) [of m] False 2(3) m_def by simp
    have "dot_chunks n (c # cs) = m # dot_chunks n (drop (length m) (c # cs))"
      using False 2(3) m_def by (simp add: dot_chunks.simps(2) [of n c cs] Let_def)
    then show ?thesis
      using ih filter_after_run [OF m_def] by simp
  qed
qed

lemma dot_chunks_bounds:
  "ch \<in> set (dot_chunks n s) \<Longrightarrow>
     0 < length ch \<and> length ch \<le> n \<and> (\<forall>x \<in> set ch. \<not> is_line_terminator x)"
proof (induction n s rule: dot_chunks.induct)
  case (1 n)
  then show ?case by (simp add: dot_chunks.simps(1))
next
  case (2 n c cs)
  show ?case
  proof (cases "is_line_terminator c \<or> n = 0")
    case True
    then have "dot_chunks n (c # cs) = dot_chunks n cs" by (simp add: dot_chunks.simps(2))
    then show ?thesis using "2.IH"(1) [OF True] "2.prems" by simp
  next
    case False
    let ?m = "take n (takeWhile (\<lambda>x. \<not> is_line_terminator x) (c # cs))"
    have eq: "dot_chunks n (c # cs) = ?m # dot_chunks n (drop (length ?m) (c # cs))"
      using False by (simp add: dot_chunks.simps(2) [of n c cs] Let_def)
    have mprop: "0 < length ?m \<and> length ?m \<le> n \<and> (\<forall>x \<in> set ?m. \<not> is_line_terminator x)"
      using False by (auto dest!: in_set_takeD set_takeWhileD)
    from "2.prems" eq have "ch = ?m \<or> ch \<in> set (dot_chunks n (drop (length ?m) (c # cs)))"
      by (simp only: set_simps insert_iff)
    then show ?thesis
    proof
      assume e: "ch = ?m"
      show ?thesis unfolding e by (rule mprop)
    next
      assume "ch \<in> set (dot_chunks n (drop (length ?m) (c # cs)))"
      then show ?thesis by (rule "2.IH"(2) [OF False refl])
    qed
  qed
qed

lemma dot_chunks_run:
  assumes "xs \<noteq> []" and "\<forall>x \<in> set xs. \<not> is_line_terminator x" and "length xs \<le> n"
    and "rest = [] \<or> is_line_terminator (hd rest)"
  shows "dot_chunks n (xs @ rest) = xs # dot_chunks n rest"
proof -
  obtain c cs where xs: "xs = c # cs" using assms(1) by (cases xs) auto
  have tw: "takeWhile (\<lambda>x. \<not> is_line_terminator x) (xs @ rest) = xs"
  proof (cases rest)
    case Nil
    then show ?thesis using assms(2) by (simp add: takeWhile_eq_all_conv [THEN iffD2])
  next
    case (Cons r rs)
    then have "is_line_terminator r" using assms(4) by simp
    then show ?thesis using assms(2) Cons by (simp add: takeWhile_append2)
  qed
  have n: "n \<noteq> 0" using assms(1,3) by (cases xs) auto
  have c: "\<not> is_line_terminator c" using assms(2) xs by simp
  have "dot_chunks n (c # (cs @ rest)) = xs # dot_chunks n (drop (length xs) (c # cs @ rest))"
    using tw n c assms(3) xs by (simp add: dot_chunks.simps(2) [of n c "cs @ rest"] Let_def)
  then show ?thesis using xs by simp
qed

lemma dot_chunks_two_lines:
  assumes "a \<noteq> []" "length a \<le> n" "\<forall>x \<in> set a. \<not> is_line_terminator x"
    and "b \<noteq> []" "length b \<le> n" "\<forall>x \<in> set b. \<not> is_line_terminator x"
    and "is_line_terminator t"
  shows "dot_chunks n (a @ [t] @ b) = [a, b]"
proof -
  have 1: "dot_chunks n (a @ (t # b)) = a # dot_chunks n (t # b)"
    using assms(1,3,2) by (rule dot_chunks_run) (simp add: assms(7))
  have 2: "dot_chunks n (b @ []) = b # dot_chunks n []"
    using assms(4,6,5) by (rule dot_chunks_run) simp
  show ?thesis
    using 1 2 dot_chunks_skip [OF assms(7), of n b] by (simp add: dot_chunks.simps(1))
qed

text \<open>
  What the chunks do cover: the body with its line terminators taken out. A body free
  of line terminators is covered exactly.
\<close>

lemma dot_chunks_without_terminators:
  assumes "0 < n" and "\<forall>x \<in> set s. \<not> is_line_terminator x"
  shows "concat (dot_chunks n s) = s"
  using assms dot_chunks_concat [of n s] by (simp add: filter_id_conv)

text \<open>
  C5, at the failing input: a body of 4001 code units, 2000 times "a", a line feed,
  2000 times "b". The match yields the two runs of letters and leaves the line feed
  out, so the parts sent do not cover the body; the two messages, as \<open>/text/contacts\<close>
  sends them to the one chat logged in with the key, are labelled Part 1/2 and Part 2/2.
\<close>

theorem text_export_skips_line_terminators:
  "dot_chunks 4000 (replicate 2000 97 @ [10] @ replicate 2000 98)
     = [replicate 2000 97, replicate 2000 98]
   \<and> concat (dot_chunks 4000 (replicate 2000 97 @ [10] @ replicate 2000 98))
       \<noteq> replicate 2000 97 @ [10] @ replicate 2000 98
   \<and> export_parts contacts_title (replicate 2000 97 @ [10] @ replicate 2000 98)
       = [contacts_title @ js '' (Part 1/2)*'' @ [10, 10] @ fence @ [10]
            @ replicate 2000 97 @ [10] @ fence,
          contacts_title @ js '' (Part 2/2)*'' @ [10, 10] @ fence @ [10]
            @ replicate 2000 98 @ [10] @ fence]
   \<and> sends (post_text_contacts (Some (js ''k1:dev1''))
               (replicate 2000 97 @ [10] @ replicate 2000 98) example_state)
       = [SendMessage 5 (Text (contacts_title @ js '' (Part 1/2)*'' @ [10, 10] @ fence @ [10]
                                 @ replicate 2000 97 @ [10] @ fence)),
          SendMessage 5 (Text (contacts_title @ js '' (Part 2/2)*'' @ [10, 10] @ fence @ [10]
                                 @ replicate 2000 98 @ [10] @ fence))]"
proof -
  let ?body = "replicate 2000 (97::nat) @ [10] @ replicate 2000 98"
  have chunks: "dot_chunks 4000 ?body = [replicate 2000 97, replicate 2000 98]"
  proof (rule dot_chunks_two_lines)
    show "replicate 2000 (97::nat) \<noteq> []" by simp
    show "replicate 2000 (98::nat) \<noteq> []" by simp
    show "length (replicate 2000 (97::nat)) \<le> 4000" by simp
    show "length (replicate 2000 (98::nat)) \<le> 4000" by simp
    show "\<forall>x \<in> set (replicate 2000 (97::nat)). \<not> is_line_terminator x"
      by (simp add: is_line_terminator_def)
    show "\<forall>x \<in> set (replicate 2000 (98::nat)). \<not> is_line_terminator x"
      by (simp add: is_line_terminator_def)
    show "is_line_terminator 10" by (simp add: is_line_terminator_def)
  qed
  have "length (concat (dot_chunks 4000 ?body)) = 4000" unfolding chunks by simp
  moreover have "length ?body = 4001" by simp
  ultimately have ne: "concat (dot_chunks 4000 ?body) \<noteq> ?body"
    by (metis numeral_eq_iff semiring_norm(88) Suc_n_not_n)
  have long: "length ?body > 4000" by simp
  have parts: "export_parts contacts_title ?body
       = [contacts_title @ js '' (Part 1/2)*'' @ [10, 10] @ fence @ [10]
            @ replicate 2000 97 @ [10] @ fence,
          contacts_title @ js '' (Part 2/2)*'' @ [10, 10] @ fence @ [10]
            @ replicate 2000 98 @ [10] @ fence]"
    unfolding export_parts_def Let_def chunks using long
    by (simp add: show_nat.simps js_def upt_rec del: length_append length_replicate)
  have handler: "sends (post_text_contacts (Some (js ''k1:dev1'')) ?body example_state)
       = map (\<lambda>t. SendMessage 5 (Text t)) (export_parts contacts_title ?body)"
    by (simp add: post_text_contacts_def handle_post_def getDeviceInfo_def text_export_def
          getActiveSessions_def example_state_def js_def)
  show ?thesis using chunks ne parts handler by simp
qed

section \<open>Permission report: properties\<close>

text \<open>
  A permission named like an inherited property is printed as the inherited function,
  twice; a name that is in neither table gets the question mark and its own name.
\<close>

lemma permission_line_inherited:
  "permission_line (js ''constructor'')
     = js ''function Object() { [native code] } function Object() { [native code] }''
   \<and> permission_line (js ''nfc'') = cp 0x2753 @ js '' nfc''"
  by (simp add: permission_line_def inherited_text_def object_prototype_keys_def
        permissionEmojis_def permissionDisplayNames_def or_string_def js_def)

lemma permissionPercentage_empty: "permissionPercentage [] = NaN"
  by (simp add: permissionPercentage_def)

text \<open>
  The quotient is rounded to a double before it is multiplied: 23 of 40 granted is
  57.49999999999999 and is shown as 57 percent, where the exact 57.5 would give 58.
\<close>

text \<open>
  The quotient is rounded to a double before it is multiplied: 23 of 40 granted is
  57.49999999999999 and is shown as 57 percent, where the exact 57.5 would give 58.
\<close>

lemma bit_length_0: "bit_length 0 = 0"
  by (simp add: bit_length.simps)

lemma bit_length_1: "bit_length (Suc 0) = Suc 0"
  by (simp add: bit_length.simps)

lemma bit_length_numeral: "bit_length (numeral k) = Suc (bit_length (numeral k div 2))"
  by (subst bit_length.simps) simp

lemma to_double_result:
  assumes "0 < q" and "floor_log2 q = e" and "- 1022 \<le> e"
    and "round_half_even (q / two_to (e - 52)) = m"
    and "of_int m * two_to (e - 52) < (2::rat) ^ 1024"
  shows "to_double q = Num (of_int m * two_to (e - 52))"
proof -
  have "max (e - 52) (- 1074) = e - 52" using assms(3) by simp
  then show ?thesis using assms by (simp add: to_double_def Let_def)
qed

lemma round_half_even_below:
  assumes "of_int f \<le> x" and "x < of_int f + 1 / 2"
  shows "round_half_even x = f"
proof -
  have "\<lfloor>x\<rfloor> = f" using assms by (simp add: floor_eq_iff)
  then show ?thesis using assms by (simp add: round_half_even_def Let_def)
qed

lemma to_double_23_40: "to_double (23 / 40) = Num (2589569785738035 / 4503599627370496)"
proof -
  have "\<lceil>(40::rat) / 23\<rceil> = 2" by (simp add: ceiling_eq_iff)
  then have e: "floor_log2 (23 / 40) = - 1" by (simp add: floor_log2_def bit_length_1)
  have m: "round_half_even (23 / 40 / two_to (- 1 - 52)) = 5179139571476070"
    by (rule round_half_even_below) (simp_all add: two_to_def)
  show ?thesis
    using to_double_result [of "23 / 40" "- 1" 5179139571476070, OF _ e _ m]
    by (simp add: two_to_def)
qed

lemma to_double_times_100:
  "to_double (64739244643450875 / 1125899906842624) = Num (8092405580431359 / 140737488355328)"
proof -
  have "\<lfloor>(64739244643450875::rat) / 1125899906842624\<rfloor> = 57" by (simp add: floor_eq_iff)
  then have e: "floor_log2 (64739244643450875 / 1125899906842624) = 5"
    by (simp add: floor_log2_def bit_length_numeral bit_length_1 bit_length_0)
  have m: "round_half_even (64739244643450875 / 1125899906842624 / two_to (5 - 52))
             = 8092405580431359"
    by (rule round_half_even_below) (simp_all add: two_to_def)
  show ?thesis
    using to_double_result [of "64739244643450875 / 1125899906842624" 5 8092405580431359,
            OF _ e _ m]
    by (simp add: two_to_def)
qed

lemma permissionPercentage_23_of_40:
  "permissionPercentage (replicate 23 (p, True) @ replicate 17 (p, False)) = Num 57"
proof -
  have "\<lfloor>(8162774324609023::rat) / 140737488355328\<rfloor> = 57" by (simp add: floor_eq_iff)
  then have "Math_round (js_times (js_divide (Num 23) (Num 40)) (Num 100)) = Num 57"
    by (simp add: to_double_23_40 to_double_times_100)
  then show ?thesis by (simp add: permissionPercentage_def)
qed

lemma progressBar_NaN: "progressBar NaN = Inr []"
  by (simp add: progressBar_def)

lemma permissions_message_empty:
  "permissions_message stamp deviceInfo [] =
     Inr (js ''*'' @ cp 0x1F510 @ js '' Device Permission Status*'' @ [10, 10]
          @ js ''_Last updated: '' @ stamp @ js ''_'' @ [10, 10]
          @ cp 0x1F4CA @ js '' *Permission Summary:*'' @ [10]
          @ cp 0x2705 @ js '' Granted: 0/0 (NaN%)'' @ [10]
          @ cp 0x274C @ js '' Denied: 0/0'' @ [10, 10]
          @ js ''Progress: [] NaN%'' @ [10, 10]
          @ js ''_Device: '' @ take 6 (deviceId deviceInfo) @ js ''_'')"
  by (simp add: permissions_message_def permissionPercentage_empty progressBar_NaN
        show_nat.simps [of 0] js_def)

text \<open>
  C10. For an accepted x-auth header and an empty permissions object, the granted
  percentage is \<open>NaN\<close> (zero divided by zero, no guard), both fill segments of the
  progress bar are empty, putting the message together raises nothing, and, the
  gateway accepting the edit, the reply is 200 with \<open>{ok: true}\<close>; the message shows
  "0/0 (NaN%)" and "Progress: [] NaN%".
\<close>

theorem permissions_empty_object:
  assumes "getDeviceInfo authHeader = Some deviceInfo" and "permissions' body = []"
  shows "permissionPercentage (permissions' body) = NaN
       \<and> progressBar (permissionPercentage (permissions' body)) = Inr []
       \<and> post_json_permissions authHeader EditOk stamp body st =
           \<lparr>reply = JsonOk,
            sends = [EditMessageText (chat_id body) (msg_id body) (Screen (PermissionStatus
               (js ''*'' @ cp 0x1F510 @ js '' Device Permission Status*'' @ [10, 10]
                @ js ''_Last updated: '' @ stamp @ js ''_'' @ [10, 10]
                @ cp 0x1F4CA @ js '' *Permission Summary:*'' @ [10]
                @ cp 0x2705 @ js '' Granted: 0/0 (NaN%)'' @ [10]
                @ cp 0x274C @ js '' Denied: 0/0'' @ [10, 10]
                @ js ''Progress: [] NaN%'' @ [10, 10]
                @ js ''_Device: '' @ take 6 (deviceId deviceInfo) @ js ''_'')))],
            state = st\<rparr>"
  using assms
  by (simp add: post_json_permissions_def handle_post_def json_permissions_def
        permissions_message_empty permissionPercentage_empty progressBar_NaN)

theorem permissions_empty_object_witness:
  "reply (post_json_permissions (Some (js ''k1:device42'')) EditOk (js ''10:15:00 AM'')
            \<lparr>chat_id = 7, msg_id = 9, permissions' = []\<rparr> (0::nat)) = JsonOk
   \<and> progressBar (permissionPercentage []) = Inr []"
  using permissions_empty_object [of "Some (js ''k1:device42'')"
          "\<lparr>key = js ''k1'', deviceId = js ''device42''\<rparr>"
          "\<lparr>chat_id = 7, msg_id = 9, permissions' = []\<rparr>" "js ''10:15:00 AM''" "0::nat"]
  by (simp add: getDeviceInfo_def js_def progressBar_def)

section \<open>Chat handlers: properties\<close>

subsection \<open>The custom-count prompt\<close>

lemma trim_keeps_first:
  assumes "\<not> is_white_space c"
  shows "\<exists>r. trim (c # cs) = c # r"
proof -
  have "dropWhile is_white_space (rev cs @ [c]) = dropWhile is_white_space (rev cs) @ [c]"
    using assms by (simp add: dropWhile_append3)
  then show ?thesis using assms by (simp add: trim_def)
qed

lemma parseInt10_not_digit_first:
  assumes "\<not> is_white_space c" "c \<noteq> 43" "c \<noteq> 45" "\<not> is_digit c"
  shows "parseInt10 (c # r) = None"
  using assms by (simp add: parseInt10_def)

lemma search_is_not_a_count:
  assumes "startsWith tx (js ''/search '')"
  shows "parseInt10 (trim tx) = None"
proof -
  obtain cs where t: "tx = 47 # cs"
    using assms by (cases tx) (auto simp add: startsWith_def js_def)
  have ws: "\<not> is_white_space 47" by (simp add: is_white_space_def)
  obtain r where "trim tx = 47 # r" using trim_keeps_first [OF ws, of cs] t by auto
  then show ?thesis
    using parseInt10_not_digit_first [of 47 r] ws by (simp add: is_digit_def)
qed

text \<open>
  What the message handler does with a reply to a pending custom-count prompt, once
  the map \<open>awaitingCustom\<close> holds one for the chat.
\<close>

lemma custom_invalid:
  assumes "m_text m = Some tx" and "tx \<noteq> []"
    and "awaitingCustom st (m_chat m) = Some customState"
    and "m_reply_to m = Some (promptId customState)"
    and "\<forall>a. awaitingAuth st (m_chat m) = Some a \<longrightarrow> messageId a \<noteq> promptId customState"
    and "parseInt10 (trim tx) = None \<or> (\<exists>v. parseInt10 (trim tx) = Some v \<and> (v < 1 \<or> 200 < v))"
  shows "on_message e m st = ([SendMessage (m_chat m) (Screen InvalidNumber)], st)"
  using assms
  by (auto simp add: on_message_def custom_count_reply_def Let_def split: option.splits)

lemma custom_valid:
  assumes "m_text m = Some tx" and "tx \<noteq> []"
    and "awaitingCustom st (m_chat m) = Some customState"
    and "m_reply_to m = Some (promptId customState)"
    and "\<forall>a. awaitingAuth st (m_chat m) = Some a \<longrightarrow> messageId a \<noteq> promptId customState"
    and "parseInt10 (trim tx) = Some v" and "1 \<le> v" and "v \<le> 200"
    and "map_of (userSessions st) (m_chat m) = Some session"
    and "selectedDevice session = Some d" and "d \<noteq> []"
  shows "on_message e m st =
           ([SendMessage (m_chat m) (Screen (GalleryUploadStarted (label customState) v)),
             StoreUpdate (key' session) (Some d)
               \<lparr>command = js ''gopics_'' @ label customState @ js ''_'' @ padStart 3 48 (show_nat (nat v)),
                chat = m_chat m, msg = env_sent_id e, ts = env_now e\<rparr>],
            st\<lparr>awaitingCustom := (awaitingCustom st)(m_chat m := None)\<rparr>)"
proof -
  have ns: "\<not> startsWith tx (js ''/search '')"
    using search_is_not_a_count [of tx] assms(6) by auto
  have auth: "\<not> (case awaitingAuth st (m_chat m) of None \<Rightarrow> False
                  | Some authState \<Rightarrow> m_reply_to m = Some (messageId authState))"
    using assms(4,5) by (auto split: option.splits)
  have c: "custom_count_reply e m tx customState st =
           ([SendMessage (m_chat m) (Screen (GalleryUploadStarted (label customState) v)),
             StoreUpdate (key' session) (Some d)
               \<lparr>command = js ''gopics_'' @ label customState @ js ''_'' @ padStart 3 48 (show_nat (nat v)),
                chat = m_chat m, msg = env_sent_id e, ts = env_now e\<rparr>],
            st\<lparr>awaitingCustom := (awaitingCustom st)(m_chat m := None)\<rparr>, False)"
    using assms(6-11) by (simp add: custom_count_reply_def Let_def truthy_def show_int_def)
  show ?thesis
    using assms(1-4) auth c ns
    by (simp add: on_message_def search_command_def Let_def)
qed

lemma pad_three: "1 \<le> v \<Longrightarrow> v \<le> 200 \<Longrightarrow> length (padStart 3 48 (show_nat (nat v))) = 3"
proof -
  assume a: "1 \<le> v" "v \<le> (200::int)"
  have "length (show_nat (nat v)) \<le> 3"
  proof (cases "nat v < 100")
    case True
    then have "length (show_nat (nat v)) \<le> 2" by (simp add: show_nat_length_two)
    then show ?thesis by simp
  next
    case False
    then have "nat v div 10 < 100" "10 \<le> nat v" using a by auto
    then have "length (show_nat (nat v div 10)) \<le> 2" "show_nat (nat v) = show_nat (nat v div 10) @ [48 + nat v mod 10]"
      by (simp_all add: show_nat_length_two show_nat_step)
    then show ?thesis by simp
  qed
  then show ?thesis by (simp add: padStart_def)
qed



lemma mutate_session_awaitingCustom [simp]:
  "awaitingCustom (mutate_session c f st) = awaitingCustom st"
  by (simp add: mutate_session_def)













text \<open>
  An identifier named like an inherited property is taken for a direct command without
  type or answer text.
\<close>

lemma command_lookup_inherited:
  "command_lookup (js ''constructor'') = Some (None, None)
   \<and> command_lookup (js ''loc_now'')
       = Some (Some (js ''location''), Some (cp 0x1F4CD @ js '' Getting current location...''))
   \<and> command_lookup (js ''gallery_custom_camera'') = None"
  by (simp add: command_lookup_def commandMap_def object_prototype_keys_def js_def)





subsection \<open>The session check of the callback handlers\<close>

lemma on_logout_query_other:
  assumes "q_data q \<notin> set logout_identifiers"
  shows "on_logout_query q st = ([], st)"
  using assms by (simp add: on_logout_query_def logout_identifiers_def)

text \<open>
  C1, as amended. For every callback identifier other than the nine that the first
  listener serves before its session check (\<open>login_start\<close>, \<open>system_status\<close>,
  \<open>device_menu\<close>, \<open>check_permissions\<close>, \<open>permissions_menu\<close>,
  \<open>battery_optimization\<close>, \<open>refresh_devices\<close>, \<open>switch_device\<close>,
  \<open>device_list\<close>) and the two that the second listener serves (\<open>logout_confirm\<close>,
  \<open>logout_yes\<close>): when the chat has no session, or its session has an empty access
  key, the query is answered with the "session expired" alert, the prompt to log in
  again with /start is sent, and nothing else happens in either listener (no write to
  the store, no change of state); and only when the chat has a session with an access
  key does the first listener go on to the branches behind the check, the second
  listener doing nothing.
\<close>

theorem session_check_gate:
  assumes "q_data q \<notin> set (before_session_check @ logout_identifiers)"
  shows "(map_of (userSessions st) (q_chat q) = None
            \<or> (\<exists>s. map_of (userSessions st) (q_chat q) = Some s \<and> key' s = [])
          \<longrightarrow> callback_query_event e q st =
                (([AnswerCallbackQuery (q_id q) (Some session_expired_alert) True,
                   SendMessage (q_chat q) (Text session_expired_prompt)], []), st))
       \<and> (\<forall>s. map_of (userSessions st) (q_chat q) = Some s \<and> key' s \<noteq> []
          \<longrightarrow> callback_query_event e q st =
                (case after_session_check e (\<lambda>s. s) q s st of
                   (calls, st') \<Rightarrow> ((calls, []), st')))"
proof -
  have other: "\<And>s. on_logout_query q s = ([], s)"
    using assms on_logout_query_other [of q] by simp
  have first: "q_data q \<notin> set before_session_check" using assms by simp
  show ?thesis
    using first
    by (auto simp add: callback_query_event_def other on_callback_query_def
          before_session_check_def Let_def)
qed

theorem session_check_gate_witness:
  "callback_query_event example_env
      \<lparr>q_id = js ''q1'', q_data = js ''cam_front'', q_chat = 6, q_msg = 9\<rparr> example_state
     = (([AnswerCallbackQuery (js ''q1'') (Some session_expired_alert) True,
          SendMessage 6 (Text session_expired_prompt)], []), example_state)
   \<and> fst (callback_query_event example_env
      \<lparr>q_id = js ''q2'', q_data = js ''cam_front'', q_chat = 5, q_msg = 9\<rparr> example_state)
     = ([AnswerCallbackQuery (js ''q2'') None False,
         EditMessageText 5 9 (Screen (CameraMenu (js ''Front'')))], [])"
  using session_check_gate [of "\<lparr>q_id = js ''q1'', q_data = js ''cam_front'', q_chat = 6, q_msg = 9\<rparr>"
          example_state example_env]
        session_check_gate [of "\<lparr>q_id = js ''q2'', q_data = js ''cam_front'', q_chat = 5, q_msg = 9\<rparr>"
          example_state example_env]
  by (simp add: before_session_check_def logout_identifiers_def js_def example_state_def
        after_session_check_def menu_screen_def startsWith_def Let_def)

text \<open>
  The claim as first stated, for every identifier, fails at \<open>login_start\<close> and at
  \<open>device_menu\<close>: with no session at all the first records a pending authentication
  prompt and sends the login prompt, the second edits the message into the device
  controls menu; neither answers with the "session expired" alert. It fails at
  \<open>logout_confirm\<close> and \<open>logout_yes\<close> too: the first listener answers with the
  alert, and the second listener, which has no session check, still edits the message
  into the logout confirmation, or answers "Logged out successfully" and edits the
  message into the goodbye text.
\<close>

theorem session_check_counterexample:
  "callback_query_event example_env
      \<lparr>q_id = js ''q1'', q_data = js ''login_start'', q_chat = 6, q_msg = 9\<rparr> empty_state
     = (([AnswerCallbackQuery (js ''q1'') None False, SendMessage 6 (Screen LoginPrompt)], []),
        empty_state\<lparr>awaitingAuth := [6 \<mapsto> \<lparr>messageId = 77, timestamp' = 1000\<rparr>]\<rparr>)
   \<and> callback_query_event example_env
      \<lparr>q_id = js ''q1'', q_data = js ''device_menu'', q_chat = 6, q_msg = 9\<rparr> empty_state
     = (([AnswerCallbackQuery (js ''q1'') None False,
          EditMessageText 6 9 (Screen DeviceControls)], []), empty_state)
   \<and> callback_query_event example_env
      \<lparr>q_id = js ''q1'', q_data = js ''logout_confirm'', q_chat = 6, q_msg = 9\<rparr> empty_state
     = (([AnswerCallbackQuery (js ''q1'') (Some session_expired_alert) True,
          SendMessage 6 (Text session_expired_prompt)],
         [AnswerCallbackQuery (js ''q1'') None False,
          EditMessageText 6 9 (Screen LogoutConfirmation)]), empty_state)
   \<and> callback_query_event example_env
      \<lparr>q_id = js ''q1'', q_data = js ''logout_yes'', q_chat = 6, q_msg = 9\<rparr> empty_state
     = (([AnswerCallbackQuery (js ''q1'') (Some session_expired_alert) True,
          SendMessage 6 (Text session_expired_prompt)],
         [AnswerCallbackQuery (js ''q1'') (Some (cp 0x2705 @ js '' Logged out successfully'')) True,
          EditMessageText 6 9 (Screen Goodbye)]), empty_state)"
  by (simp add: callback_query_event_def on_callback_query_def on_logout_query_def js_def
        example_env_def empty_state_def)

section \<open>Path tokens: properties\<close>

lemma b64_value_char: "n < 64 \<Longrightarrow> b64_value (b64url_char n) = Some n"
  by (auto simp add: b64_value_def b64url_char_def)

lemma b64url_char_not_pad: "b64url_char n \<noteq> 61"
  by (auto simp add: b64url_char_def)

lemma map_filter_b64:
  "\<forall>x \<in> set xs. x < 64 \<Longrightarrow> List.map_filter b64_value (map b64url_char xs) = xs"
  by (induction xs) (simp_all add: List.map_filter_simps b64_value_char)

lemma takeWhile_b64: "takeWhile (\<lambda>c. c \<noteq> 61) (map b64url_char xs) = map b64url_char xs"
  by (induction xs) (simp_all add: b64url_char_not_pad)

lemma hi16: "(b::nat) < 256 \<Longrightarrow> b div 16 < 16" by simp
lemma hi64: "(c::nat) < 256 \<Longrightarrow> c div 64 < 4" by simp
lemma hi4: "(a::nat) < 256 \<Longrightarrow> a div 4 < 64" by simp

lemma pack_lt: "(x::nat) < 4 \<Longrightarrow> y < 16 \<Longrightarrow> x * 16 + y < 64" by simp
lemma pack_lt2: "(x::nat) < 16 \<Longrightarrow> y < 4 \<Longrightarrow> x * 4 + y < 64" by simp

lemma split16: "(y::nat) < 16 \<Longrightarrow> (x * 16 + y) div 16 = x \<and> (x * 16 + y) mod 16 = y" by simp
lemma split4: "(y::nat) < 4 \<Longrightarrow> (x * 4 + y) div 4 = x \<and> (x * 4 + y) mod 4 = y" by simp

lemma triple:
  assumes "(a::nat) < 256" "b < 256" "c < 256"
  shows "a div 4 * 4 + (a mod 4 * 16 + b div 16) div 16 = a"
    and "(a mod 4 * 16 + b div 16) mod 16 * 16 + (b mod 16 * 4 + c div 64) div 4 = b"
    and "(b mod 16 * 4 + c div 64) mod 4 * 64 + c mod 64 = c"
  using hi16 [OF assms(2)] hi64 [OF assms(3)] by (simp_all add: split16 split4)

lemma pair2:
  assumes "(a::nat) < 256" "b < 256"
  shows "(a mod 4 * 16 + b div 16) mod 16 * 16 + (b mod 16 * 4) div 4 = b"
  using hi16 [OF assms(2)] by (simp add: split16)

lemma single: "a div 4 * 4 + (a mod 4 * 16) div 16 = (a::nat)" by simp

lemma sextets_bound: "\<forall>b \<in> set bytes. b < 256 \<Longrightarrow> \<forall>x \<in> set (sextets bytes). x < 64"
proof (induction bytes rule: sextets.induct)
  case (1 a b c rest)
  then have "a < 256" "b < 256" "c < 256" by simp_all
  then have "a div 4 < 64" "a mod 4 * 16 + b div 16 < 64" "b mod 16 * 4 + c div 64 < 64"
    by (simp_all add: pack_lt pack_lt2)
  with 1 show ?case by simp
next
  case (2 a b)
  then have "a < 256" "b < 256" by simp_all
  then have "a div 4 < 64" "a mod 4 * 16 + b div 16 < 64" "b mod 16 * 4 + 0 < 64"
    by (simp_all add: pack_lt pack_lt2)
  then show ?case by simp
next
  case (3 a)
  then have "a < 256" by simp
  then have "a div 4 < 64" "a mod 4 * 16 + 0 < 64" by (simp_all add: pack_lt)
  then show ?case by simp
next
  case 4
  then show ?case by simp
qed

lemma unsextets_sextets: "\<forall>b \<in> set bytes. b < 256 \<Longrightarrow> unsextets (sextets bytes) = bytes"
proof (induction bytes rule: sextets.induct)
  case (1 a b c rest)
  then have "a < 256" "b < 256" "c < 256" by simp_all
  note t = triple [OF this]
  have "unsextets (sextets rest) = rest" using 1 by simp
  then show ?case using t by simp
next
  case (2 a b)
  then have "a < 256" "b < 256" by simp_all
  note t = triple(1) [OF this, of 0] pair2 [OF this]
  show ?case using t by simp
next
  case (3 a)
  show ?case using single [of a] by simp
next
  case 4
  then show ?case by simp
qed

lemma b64url_roundtrip:
  "\<forall>b \<in> set bytes. b < 256 \<Longrightarrow> b64url_decode (b64url_encode bytes) = bytes"
  by (simp add: b64url_decode_def b64url_encode_def takeWhile_b64 map_filter_b64 sextets_bound
        unsextets_sextets)

lemma decode1: "c < 0x80 \<Longrightarrow> utf8_decode (c # rest) = c # utf8_decode rest"
  by (simp add: utf8_decode.simps(2))

lemma decode2:
  assumes "2 \<le> q" "q < 32" "l < 64"
  shows "utf8_decode ((0xC0 + q) # (0x80 + l) # rest) = (q * 64 + l) # utf8_decode rest"
  using assms by (simp add: utf8_decode.simps(2) is_continuation_def)

lemma decode3:
  assumes "q < 16" "m < 64" "l < 64" "q = 0 \<longrightarrow> 32 \<le> m" "q = 13 \<longrightarrow> m \<le> 31"
  shows "utf8_decode ((0xE0 + q) # (0x80 + m) # (0x80 + l) # rest)
           = (q * 4096 + m * 64 + l) # utf8_decode rest"
  using assms by (simp add: utf8_decode.simps(2) is_continuation_def)

lemma decode4:
  assumes "q \<le> 4" "m < 64" "n < 64" "l < 64" "q = 0 \<longrightarrow> 16 \<le> m" "q = 4 \<longrightarrow> m \<le> 15"
  shows "utf8_decode ((0xF0 + q) # (0x80 + m) # (0x80 + n) # (0x80 + l) # rest)
           = (q * 262144 + m * 4096 + n * 64 + l) # utf8_decode rest"
  using assms by (simp add: utf8_decode.simps(2) is_continuation_def)

lemma split64: "(c::nat) = c div 64 * 64 + c mod 64" by simp

lemma split4096: "(c::nat) = c div 4096 * 4096 + c div 64 mod 64 * 64 + c mod 64"
proof -
  have "c div 64 = c div 64 div 64 * 64 + c div 64 mod 64" by simp
  moreover have "c div 64 div 64 = c div 4096" by (simp add: div_mult2_eq [symmetric])
  ultimately have "c div 64 = c div 4096 * 64 + c div 64 mod 64" by simp
  then have "c div 64 * 64 = c div 4096 * 4096 + c div 64 mod 64 * 64" by simp
  then show ?thesis using split64 [of c] by simp
qed

lemma split262144:
  "(c::nat) = c div 262144 * 262144 + c div 4096 mod 64 * 4096 + c div 64 mod 64 * 64 + c mod 64"
proof -
  have "c div 4096 = c div 4096 div 64 * 64 + c div 4096 mod 64" by simp
  moreover have "c div 4096 div 64 = c div 262144" by (simp add: div_mult2_eq [symmetric])
  ultimately have "c div 4096 = c div 262144 * 64 + c div 4096 mod 64" by simp
  then have "c div 4096 * 4096 = c div 262144 * 262144 + c div 4096 mod 64 * 4096" by simp
  then show ?thesis using split4096 [of c] by simp
qed

lemma low_bound3: "(c::nat) = m * 64 + l \<Longrightarrow> l < 64 \<Longrightarrow> 2048 \<le> c \<Longrightarrow> 32 \<le> m" by linarith
lemma high_bound3: "(c::nat) = 13 * 4096 + m * 64 + l \<Longrightarrow> c < 0xD800 \<Longrightarrow> m \<le> 31" by linarith
lemma low_bound4: "(c::nat) = m * 4096 + n * 64 + l \<Longrightarrow> n < 64 \<Longrightarrow> l < 64 \<Longrightarrow> 65536 \<le> c \<Longrightarrow> 16 \<le> m"
  by linarith
lemma high_bound4: "(c::nat) = 4 * 262144 + m * 4096 + n * 64 + l \<Longrightarrow> c < 0x110000 \<Longrightarrow> m \<le> 15"
  by linarith

lemma utf8_decode_bytes:
  assumes "scalar c"
  shows "utf8_decode (utf8_bytes c @ rest) = c # utf8_decode rest"
proof -
  consider "c < 0x80" | "0x80 \<le> c" "c < 0x800" | "0x800 \<le> c" "c < 0x10000" | "0x10000 \<le> c"
    by linarith
  then show ?thesis
  proof cases
    case 1
    then show ?thesis by (simp add: utf8_bytes_def decode1)
  next
    case 2
    then have "2 \<le> c div 64" "c div 64 < 32" "c mod 64 < 64" by simp_all
    from decode2 [OF this, of rest] 2 show ?thesis by (simp add: utf8_bytes_def)
  next
    case 3
    let ?q = "c div 4096" and ?m = "c div 64 mod 64" and ?l = "c mod 64"
    have q: "?q < 16" using 3 by simp
    have c: "c = ?q * 4096 + ?m * 64 + ?l" by (rule split4096)
    have lo: "?q = 0 \<longrightarrow> 32 \<le> ?m"
    proof
      assume "?q = 0"
      then have e: "c = ?m * 64 + ?l" using c by simp
      show "32 \<le> ?m" by (rule low_bound3 [OF e _ 3(1)]) simp
    qed
    have hi: "?q = 13 \<longrightarrow> ?m \<le> 31"
    proof
      assume "?q = 13"
      then have e: "c = 13 * 4096 + ?m * 64 + ?l" using c by simp
      have "0xD000 \<le> c" using e by simp
      moreover have "c div 4096 < 14" using \<open>?q = 13\<close> by simp
      then have "c < 0xE000" by simp
      ultimately have "c < 0xD800" using assms by (simp add: scalar_def)
      with e show "?m \<le> 31" by (rule high_bound3)
    qed
    have "utf8_decode ((0xE0 + ?q) # (0x80 + ?m) # (0x80 + ?l) # rest)
            = (?q * 4096 + ?m * 64 + ?l) # utf8_decode rest"
      by (rule decode3 [OF q _ _ lo hi]) simp_all
    then show ?thesis using 3 c by (simp add: utf8_bytes_def)
  next
    case 4
    let ?q = "c div 262144" and ?m = "c div 4096 mod 64" and ?n = "c div 64 mod 64" and ?l = "c mod 64"
    have lt: "c < 0x110000" using assms by (simp add: scalar_def)
    then have q: "?q \<le> 4" by simp
    have c: "c = ?q * 262144 + ?m * 4096 + ?n * 64 + ?l" by (rule split262144)
    have lo: "?q = 0 \<longrightarrow> 16 \<le> ?m"
    proof
      assume "?q = 0"
      then have e: "c = ?m * 4096 + ?n * 64 + ?l" using c by simp
      show "16 \<le> ?m" by (rule low_bound4 [OF e _ _ 4]) simp_all
    qed
    have hi: "?q = 4 \<longrightarrow> ?m \<le> 15"
    proof
      assume "?q = 4"
      then have "c = 4 * 262144 + ?m * 4096 + ?n * 64 + ?l" using c by simp
      then show "?m \<le> 15" using lt by (rule high_bound4)
    qed
    have "utf8_decode ((0xF0 + ?q) # (0x80 + ?m) # (0x80 + ?n) # (0x80 + ?l) # rest)
            = (?q * 262144 + ?m * 4096 + ?n * 64 + ?l) # utf8_decode rest"
      by (rule decode4 [OF q _ _ _ lo hi]) simp_all
    then show ?thesis using 4 c by (simp add: utf8_bytes_def)
  qed
qed

lemma utf8_bytes_bound:
  assumes "scalar c"
  shows "\<forall>b \<in> set (utf8_bytes c). b < 256"
proof -
  have lt: "c < 0x110000" using assms by (simp add: scalar_def)
  then have q4: "c div 262144 \<le> 4" by simp
  have m: "x mod 64 < 128" for x :: nat
    using mod_less_divisor [of 64 x] by linarith
  consider "c < 0x80" | "0x80 \<le> c" "c < 0x800" | "0x800 \<le> c" "c < 0x10000" | "0x10000 \<le> c"
    by linarith
  then show ?thesis
  proof cases
    case 1
    then show ?thesis by (simp add: utf8_bytes_def)
  next
    case 2
    then have "c div 64 < 32" by simp
    then show ?thesis using 2 by (simp add: utf8_bytes_def m)
  next
    case 3
    then have "c div 4096 < 16" by simp
    then show ?thesis using 3 by (simp add: utf8_bytes_def m)
  next
    case 4
    then show ?thesis using q4 by (simp add: utf8_bytes_def m)
  qed
qed

lemma utf8_decode_concat:
  "\<forall>c \<in> set cs. scalar c \<Longrightarrow> utf8_decode (concat (map utf8_bytes cs)) = cs"
  by (induction cs) (simp_all add: utf8_decode_bytes)

lemma pair_scalar:
  assumes "is_high_surrogate u" "is_low_surrogate v"
  shows "scalar (0x10000 + (u - 0xD800) * 0x400 + (v - 0xDC00))"
    and "cp (0x10000 + (u - 0xD800) * 0x400 + (v - 0xDC00)) = [u, v]"
proof -
  obtain x where x: "u = 0xD800 + x" "x < 0x400"
    using assms(1) by (auto simp add: is_high_surrogate_def le_iff_add)
  obtain y where y: "v = 0xDC00 + y" "y < 0x400"
    using assms(2) by (auto simp add: is_low_surrogate_def le_iff_add)
  have "x * 0x400 + y < 0x100000" using x(2) y(2) by linarith
  then show "scalar (0x10000 + (u - 0xD800) * 0x400 + (v - 0xDC00))"
    using x y by (simp add: scalar_def)
  show "cp (0x10000 + (u - 0xD800) * 0x400 + (v - 0xDC00)) = [u, v]"
    using x y by (simp add: cp_def)
qed

lemma plain_scalar:
  assumes "u < 0x10000" "\<not> is_high_surrogate u" "\<not> is_low_surrogate u"
  shows "scalar (lone u)" and "cp (lone u) = [u]"
  using assms by (auto simp add: scalar_def lone_def cp_def is_high_surrogate_def is_low_surrogate_def)

lemma code_points_well_formed:
  "well_formed s \<Longrightarrow> (\<forall>c \<in> set (code_points s). scalar c) \<and> concat (map cp (code_points s)) = s"
proof (induction s rule: well_formed.induct)
  case 1
  then show ?case by simp
next
  case (2 u)
  then show ?case using plain_scalar [of u] by simp
next
  case (3 u v rest)
  show ?case
  proof (cases "is_high_surrogate u")
    case True
    then have low: "is_low_surrogate v" and wf: "well_formed rest" using 3(3) by simp_all
    show ?thesis using 3(1) [OF True wf] pair_scalar [OF True low] True low by simp
  next
    case False
    then have p: "u < 0x10000" "\<not> is_low_surrogate u" and wf: "well_formed (v # rest)"
      using 3(3) by simp_all
    show ?thesis using 3(2) [OF False wf] plain_scalar [OF p(1) False p(2)] False by simp
  qed
qed

lemma utf8_roundtrip:
  assumes "well_formed s"
  shows "utf8_to_string (utf8_encode s) = s" and "\<forall>b \<in> set (utf8_encode s). b < 256"
proof -
  note cps = code_points_well_formed [OF assms]
  show "utf8_to_string (utf8_encode s) = s"
    using cps by (simp add: utf8_to_string_def utf8_encode_def utf8_decode_concat)
  show "\<forall>b \<in> set (utf8_encode s). b < 256"
    using cps utf8_bytes_bound by (auto simp add: utf8_encode_def)
qed

lemma dec_enc:
  assumes "well_formed s"
  shows "dec (enc s) = s"
  using utf8_roundtrip [OF assms] by (simp add: dec_def enc_def b64url_roundtrip)

lemma well_formed_prefix:
  "well_formed (xs @ c # ys) \<Longrightarrow> \<not> is_low_surrogate c \<Longrightarrow> well_formed xs"
proof (induction xs rule: well_formed.induct)
  case 1
  then show ?case by simp
next
  case (2 u)
  then show ?case by (auto split: if_splits)
next
  case (3 u v rest)
  show ?case
  proof (cases "is_high_surrogate u")
    case True
    then have "is_low_surrogate v" "well_formed (rest @ c # ys)" using 3(3) by simp_all
    then show ?thesis using 3(1) [OF True _ 3(4)] True by simp
  next
    case False
    then have "u < 0x10000" "\<not> is_low_surrogate u" "well_formed ((v # rest) @ c # ys)"
      using 3(3) by simp_all
    then show ?thesis using 3(2) [OF False _ 3(4)] False by simp
  qed
qed

lemma dropWhile_suffix: "\<exists>pre. xs = pre @ dropWhile P xs"
  by (rule exI [of _ "takeWhile P xs"]) simp

lemma dirname_cons:
  "dirname (h # t) =
     (let before = dropWhile (\<lambda>c. c \<noteq> 47) (dropWhile (\<lambda>c. c = 47) (rev t))
      in if before = [] then (if h = 47 then js ''/'' else js ''.'')
         else if h = 47 \<and> length before = 1 then js ''//''
         else take (length before) (h # t))"
  by (simp add: dirname_def Let_def)

lemma dirname_cases:
  "dirname p = js ''.'' \<or> dirname p = js ''/'' \<or> dirname p = js ''//''
     \<or> (\<exists>xs ys. p = xs @ 47 # ys \<and> dirname p = xs)"
proof (cases p)
  case Nil
  then show ?thesis by (simp add: dirname_def)
next
  case (Cons h t)
  define before where "before = dropWhile (\<lambda>c. c \<noteq> 47) (dropWhile (\<lambda>c. c = 47) (rev t))"
  have d: "dirname p = (if before = [] then (if h = 47 then js ''/'' else js ''.'')
         else if h = 47 \<and> length before = 1 then js ''//''
         else take (length before) (h # t))"
    unfolding Cons dirname_cons before_def Let_def ..
  show ?thesis
  proof (cases "before = []")
    case True
    then show ?thesis unfolding d by simp
  next
    case False
    have "hd before = 47"
      using False hd_dropWhile [of "\<lambda>c. c \<noteq> 47" "dropWhile (\<lambda>c. c = 47) (rev t)"]
      unfolding before_def by blast
    then obtain bs where bs: "before = 47 # bs" using False by (cases before) auto
    obtain pre1 where p1: "rev t = pre1 @ dropWhile (\<lambda>c. c = 47) (rev t)"
      using dropWhile_suffix by blast
    obtain pre2 where p2: "dropWhile (\<lambda>c. c = 47) (rev t) = pre2 @ before"
      unfolding before_def using dropWhile_suffix by blast
    have "rev t = (pre1 @ pre2) @ 47 # bs" using p1 p2 bs by (metis append.assoc)
    then have "rev (rev t) = rev ((pre1 @ pre2) @ 47 # bs)" by (rule arg_cong)
    then have t: "t = rev bs @ 47 # rev (pre1 @ pre2)" by simp
    have tk: "take (length before) (h # t) = h # rev bs"
      unfolding bs t by simp
    have p: "p = (h # rev bs) @ 47 # rev (pre1 @ pre2)" unfolding Cons t by simp
    show ?thesis
    proof (cases "h = 47 \<and> length before = 1")
      case True
      then show ?thesis unfolding d using False by simp
    next
      case nr: False
      have "dirname p = take (length before) (h # t)" unfolding d using False nr by auto
      then have "dirname p = h # rev bs" by (simp only: tk)
      then show ?thesis using p by blast
    qed
  qed
qed

lemma low_47: "\<not> is_low_surrogate 47"
  by (simp add: is_low_surrogate_def)

lemma dirname_well_formed:
  assumes "well_formed p"
  shows "well_formed (dirname p)"
proof -
  consider "dirname p = js ''.''" | "dirname p = js ''/''" | "dirname p = js ''//''"
    | xs ys where "p = xs @ 47 # ys" "dirname p = xs"
    using dirname_cases [of p] by blast
  then show ?thesis
  proof cases
    case 4
    then show ?thesis using assms well_formed_prefix [of xs 47 ys] low_47 by simp
  qed (simp_all add: js_def is_high_surrogate_def is_low_surrogate_def)
qed

lemma parent_of_enc:
  assumes "well_formed p"
  shows "dec (parent (enc p)) = dirname p"
  using dec_enc [OF assms] dec_enc [OF dirname_well_formed [OF assms]] by (simp add: parent_def)

text \<open>
  C7, as amended. For every well-formed path string (no surrogate code unit outside a
  pair), decoding its token gives the string back, and the token that \<open>parent\<close>
  makes from it decodes to the string's parent directory as \<open>path.dirname\<close>
  computes it; in particular the parent token of the token of /sdcard/DCIM/Camera
  decodes to /sdcard/DCIM.
\<close>

theorem parent_token_round_trip:
  assumes "well_formed p"
  shows "dec (enc p) = p
       \<and> dec (parent (enc p)) = dirname p
       \<and> dec (parent (enc (js ''/sdcard/DCIM/Camera''))) = js ''/sdcard/DCIM''"
proof -
  have w: "well_formed (js ''/sdcard/DCIM/Camera'')"
    by (simp add: js_def is_high_surrogate_def is_low_surrogate_def)
  have "dec (parent (enc (js ''/sdcard/DCIM/Camera''))) = js ''/sdcard/DCIM''"
    using parent_of_enc [OF w] by (simp add: dirname_def js_def)
  then show ?thesis using dec_enc [OF assms] parent_of_enc [OF assms] by simp
qed

theorem parent_token_round_trip_witness:
  "well_formed (js ''/sdcard/'' @ cp 0x1F4F7 @ js ''/x'')
   \<and> dec (parent (enc (js ''/sdcard/'' @ cp 0x1F4F7 @ js ''/x''))) = js ''/sdcard/'' @ cp 0x1F4F7"
proof -
  have w: "well_formed (js ''/sdcard/'' @ cp 0x1F4F7 @ js ''/x'')"
    by (simp add: js_def cp_def is_high_surrogate_def is_low_surrogate_def)
  have d: "dirname (js ''/sdcard/'' @ cp 0x1F4F7 @ js ''/x'') = js ''/sdcard/'' @ cp 0x1F4F7"
    by (simp add: dirname_def js_def cp_def)
  show ?thesis using parent_token_round_trip [OF w] w d by simp
qed

text \<open>
  The claim as first stated, for every string, fails at a string with a surrogate on
  its own: encoding turns the surrogate into U+FFFD, so for "/", U+D800, "/a" the parent
  token decodes to "/", U+FFFD and not to the parent directory "/", U+D800.
\<close>

theorem parent_token_lone_surrogate_counterexample:
  "dec (parent (enc [47, 0xD800, 47, 97])) = [47, 0xFFFD]
   \<and> dirname [47, 0xD800, 47, 97] = [47, 0xD800]
   \<and> dec (parent (enc [47, 0xD800, 47, 97])) \<noteq> dirname [47, 0xD800, 47, 97]"
  by (simp add: enc_def dec_def parent_def dirname_def utf8_encode_def utf8_to_string_def
        utf8_bytes_def utf8_decode.simps b64url_encode_def b64url_decode_def b64url_char_def
        b64_value_def List.map_filter_def cp_def lone_def is_high_surrogate_def
        is_low_surrogate_def is_continuation_def Let_def)

end
